theory Spec2Isabelle
  imports Main
begin

section \<open>Data model of manage-jss.ts\<close>

text \<open>
  A JavaScript object used as a dictionary is an association list in insertion order
  whose keys are its own enumerable properties; the keys of one object are distinct, and
  a rule name is not an array index. An own property is read with \<open>map_of\<close>; writing an
  own property keeps the position of a key that is already there and appends a new key
  at the end.
\<close>

type_synonym 'v object = "(string \<times> 'v) list"

fun set_property :: "'k \<Rightarrow> 'v \<Rightarrow> ('k \<times> 'v) list \<Rightarrow> ('k \<times> 'v) list" where
  "set_property k v [] = [(k, v)]"
| "set_property k v ((k', v') # ps) =
     (if k' = k then (k, v) # ps else (k', v') # set_property k v ps)"

datatype error = TypeError

definition and_then :: "error + 'a \<Rightarrow> ('a \<Rightarrow> error + 'b) \<Rightarrow> error + 'b" where
  "and_then r f = (case r of Inl e \<Rightarrow> Inl e | Inr x \<Rightarrow> f x)"

text \<open>
  The objects the manager indexes are plain objects: what is not an own property is
  looked up in \<open>Object.prototype\<close>, whose properties are not enumerable. These are its
  names; all are functions but \<open>__proto__\<close>, an accessor that reads as the prototype
  object and ignores the assignment of a string.
\<close>

definition Object_prototype :: "string list" where
  "Object_prototype =
     [''constructor'', ''hasOwnProperty'', ''isPrototypeOf'', ''propertyIsEnumerable'',
      ''toLocaleString'', ''toString'', ''valueOf'', ''__defineGetter__'',
      ''__defineSetter__'', ''__lookupGetter__'', ''__lookupSetter__'', ''__proto__'']"

text \<open>What \<open>obj[key]\<close> reads in an object whose own properties are strings: the own
  string, the inherited member of that name, or \<open>undefined\<close>.\<close>

datatype jsvalue = Undefined | Str string | Inherited string

definition get_property :: "string object \<Rightarrow> string \<Rightarrow> jsvalue" where
  "get_property obj key =
     (case map_of obj key of
        Some v \<Rightarrow> Str v
      | None \<Rightarrow> if key \<in> set Object_prototype then Inherited key else Undefined)"

text \<open>\<open>obj[key] = v\<close> for a string \<open>v\<close>: the setter of \<open>__proto__\<close> ignores it, every
  other key becomes or stays an own property.\<close>

definition put_property :: "string \<Rightarrow> string \<Rightarrow> string object \<Rightarrow> string object" where
  "put_property key v obj = (if key = ''__proto__'' then obj else set_property key v obj)"

text \<open>\<open>${v}\<close> in a template literal. An inherited function prints as its source text,
  which for a built-in is \<open>function name() { [native code] }\<close>; \<open>constructor\<close> is the
  function \<open>Object\<close>, and the prototype object prints as \<open>[object Object]\<close>.\<close>

definition to_string :: "jsvalue \<Rightarrow> string" where
  "to_string v =
     (case v of
        Undefined \<Rightarrow> ''undefined''
      | Str s \<Rightarrow> s
      | Inherited name \<Rightarrow>
          if name = ''__proto__'' then ''[object Object]''
          else ''function '' @ (if name = ''constructor'' then ''Object'' else name)
               @ ''() { [native code] }'')"

text \<open>\<open>obj.hasOwnProperty(key)\<close>: the method is looked up in \<open>obj\<close> itself. An own
  property of that name is a string, and calling a string raises a TypeError; otherwise
  the method is that of \<open>Object.prototype\<close>.\<close>

definition hasOwnProperty :: "string object \<Rightarrow> string \<Rightarrow> error + bool" where
  "hasOwnProperty obj key =
     (case map_of obj ''hasOwnProperty'' of
        Some v \<Rightarrow> Inl TypeError
      | None \<Rightarrow> Inr (map_of obj key \<noteq> None))"

text \<open>\<open>Object.assign({}, src)\<close>: the own properties of \<open>src\<close>, assigned one by one to a
  new empty object.\<close>

definition object_assign :: "string object \<Rightarrow> string object" where
  "object_assign src = foldl (\<lambda>acc (k, v). put_property k v acc) [] src"

text \<open>The configuration object (the design system): property names and values.\<close>

type_synonym config = "string object"

text \<open>\<open>ICSSRules<T>\<close>: a rule is a string, a nested set of rules, or a resolver
  \<open>(config: T) => string\<close>.\<close>

datatype rule = Literal string | Nested "(string \<times> rule) list" | Resolver "config \<Rightarrow> string"

type_synonym ICSSRules = "rule object"
type_synonym ComponentStyles = "rule object"
type_synonym ClassNames = "string object"

text \<open>
  A JSS \<open>StyleSheet\<close> handle. \<open>sheet_id\<close> is the identity of the handle (two handles are
  the same object exactly when their ids agree); \<open>classes\<close> maps each rule name to the
  class name the engine generated for it.
\<close>

record StyleSheet =
  sheet_id :: nat
  sheet_styles :: ComponentStyles
  link :: bool
  classes :: ClassNames

text \<open>\<open>IJSSManagerState\<close>: both fields are optional.\<close>

record IJSSManagerState =
  dynamicStyleSheet :: "StyleSheet option"
  staticStyleSheet :: "StyleSheet option"

subsection \<open>getClassNames\<close>

text \<open>The body of the \<open>for (const key in dynamicStyleSheet.classes)\<close> loop, for one key
  (lines 284 to 288): \<open>typeof classNames[key] !== "undefined"\<close> reads through the
  prototype.\<close>

definition merge_key :: "ClassNames \<Rightarrow> ClassNames \<Rightarrow> string \<Rightarrow> error + ClassNames" where
  "merge_key dyn classNames key =
     and_then (hasOwnProperty dyn key)
       (\<lambda>own. if own then
                 Inr (put_property key
                        (case get_property classNames key of
                           Undefined \<Rightarrow> to_string (get_property dyn key)
                         | v \<Rightarrow> to_string v @ '' '' @ to_string (get_property dyn key))
                        classNames)
               else Inr classNames)"

text \<open>The loop: \<open>for ... in\<close> visits the enumerable properties, which are the own ones.\<close>

fun merge_keys :: "ClassNames \<Rightarrow> string list \<Rightarrow> ClassNames \<Rightarrow> error + ClassNames" where
  "merge_keys dyn [] classNames = Inr classNames"
| "merge_keys dyn (key # keys) classNames =
     and_then (merge_key dyn classNames key) (merge_keys dyn keys)"

text \<open>\<open>getClassNames\<close>, on the state object of an instance.\<close>

definition getClassNames :: "IJSSManagerState \<Rightarrow> error + ClassNames" where
  "getClassNames st =
     (let classNames = (case staticStyleSheet st of
                          Some s \<Rightarrow> object_assign (classes s)
                        | None \<Rightarrow> [])
      in case dynamicStyleSheet st of
           Some d \<Rightarrow> merge_keys (classes d) (map fst (classes d)) classNames
         | None \<Rightarrow> Inr classNames)"

text \<open>The class maps \<open>getClassNames\<close> reads: those of the handles the state holds, empty
  for a handle that is absent.\<close>

definition static_classes :: "IJSSManagerState \<Rightarrow> ClassNames" where
  "static_classes st = (case staticStyleSheet st of Some s \<Rightarrow> classes s | None \<Rightarrow> [])"

definition dynamic_classes :: "IJSSManagerState \<Rightarrow> ClassNames" where
  "dynamic_classes st = (case dynamicStyleSheet st of Some d \<Rightarrow> classes d | None \<Rightarrow> [])"

subsection \<open>Style separation\<close>

text \<open>
  Modelled from the spec: \<open>getDynamicStyles\<close> (package jss) and \<open>getStaticStyles\<close>
  (./utilities/get-static-styles) are not among the sources. The spec: "Recursively walks
  the tree; a rule is dynamic if its value (at any depth) is a function, static
  otherwise. Produces two sibling trees preserving nesting structure; omits a side
  entirely if it ends up with zero rules after recursion (an object that is recursively
  empty counts as absent, not as an empty object)."
\<close>

fun dynamic_rules :: "ICSSRules \<Rightarrow> ICSSRules" where
  "dynamic_rules [] = []"
| "dynamic_rules ((k, Literal s) # rs) = dynamic_rules rs"
| "dynamic_rules ((k, Resolver f) # rs) = (k, Resolver f) # dynamic_rules rs"
| "dynamic_rules ((k, Nested t) # rs) =
     (case dynamic_rules t of
        [] \<Rightarrow> dynamic_rules rs
      | e # es \<Rightarrow> (k, Nested (e # es)) # dynamic_rules rs)"

fun static_rules :: "ICSSRules \<Rightarrow> ICSSRules" where
  "static_rules [] = []"
| "static_rules ((k, Literal s) # rs) = (k, Literal s) # static_rules rs"
| "static_rules ((k, Resolver f) # rs) = static_rules rs"
| "static_rules ((k, Nested t) # rs) =
     (case static_rules t of
        [] \<Rightarrow> static_rules rs
      | e # es \<Rightarrow> (k, Nested (e # es)) # static_rules rs)"

definition getDynamicStyles :: "ComponentStyles \<Rightarrow> ComponentStyles option" where
  "getDynamicStyles styles =
     (case dynamic_rules styles of [] \<Rightarrow> None | e # es \<Rightarrow> Some (e # es))"

definition getStaticStyles :: "ComponentStyles \<Rightarrow> ComponentStyles option" where
  "getStaticStyles styles =
     (case static_rules styles of [] \<Rightarrow> None | e # es \<Rightarrow> Some (e # es))"

text \<open>Modelled from the spec: \<open>isEmptyObject\<close> (./utilities/object) is not among the
  sources; the spec calls it a generic object-emptiness helper.\<close>

definition isEmptyObject :: "'v object \<Rightarrow> bool" where
  "isEmptyObject obj = (case obj of [] \<Rightarrow> True | _ # _ \<Rightarrow> False)"

subsection \<open>The module-level collaborators\<close>

text \<open>
  Modelled from the spec: the event names of ./utilities/get-event-names are not among
  the sources; the spec lists "request configuration", "deliver configuration", "refresh
  request" and "component registered/deregistered" notifications. The four names the
  source uses are taken to be four different strings.
\<close>

datatype eventNames = GetConfig | Update | RegisterComponent | DeregisterComponent

datatype hook = NgOnInit | NgAfterContentInit | NgAfterViewInit

text \<open>
  Every call the manager makes to a collaborator is recorded, in order: the hooks of the
  base component, the DOM element, the id generator, the style separation helpers, the
  JSS engine, a stylesheet handle and the shared \<open>SheetsManager\<close>. Handles and style
  objects are named by their identity.
\<close>

datatype call =
    Super hook
  | AddEventListener eventNames
  | DispatchEvent eventNames "config option"
  | UuidV1
  | GetDynamicStyles nat
  | GetStaticStyles nat
  | CreateStyleSheet nat bool
  | ManagerAdd nat nat
  | ManagerManage nat
  | ManagerUnmanage nat
  | Attach nat
  | UpdateSheet nat config
  | Detach nat
  | RemoveStyleSheet nat

text \<open>
  The state behind the imports \<open>uuid\<close>, \<open>jss\<close> and \<open>stylesheetManager\<close>: how many ids
  and handles have been handed out, how many separated-stylesheet objects have been
  allocated, the engine's class-name generator, and the record of calls.
\<close>

record world =
  uuid_calls :: nat
  sheets_created :: nat
  objects_created :: nat
  generateClassName :: "nat \<Rightarrow> string \<Rightarrow> string"
  trace :: "call list"

definition emit :: "call \<Rightarrow> world \<Rightarrow> world" where
  "emit c w = w\<lparr>trace := trace w @ [c]\<rparr>"

text \<open>Modelled from the spec: the unique-id generator (package uuid) "produces a globally
  unique opaque string on each call"; the string of the n-th call is never empty and
  differs from the string of every other call.\<close>

definition uuid_string :: "nat \<Rightarrow> string" where
  "uuid_string n = CHR ''u'' # replicate n CHR ''i''"

definition uuid :: "world \<Rightarrow> string \<times> world" where
  "uuid w = (uuid_string (uuid_calls w), emit UuidV1 (w\<lparr>uuid_calls := Suc (uuid_calls w)\<rparr>))"

text \<open>Modelled from the spec: \<open>jss.createStyleSheet\<close> "compile(ruleTree, options) ->
  StylesheetHandle", a new handle on every call, whose \<open>classes\<close> is "a mapping rule-name
  -> generated class-name string".\<close>

definition createStyleSheet :: "ComponentStyles \<Rightarrow> bool \<Rightarrow> world \<Rightarrow> StyleSheet \<times> world" where
  "createStyleSheet styles lnk w =
     (let n = sheets_created w
      in (\<lparr>sheet_id = n, sheet_styles = styles, link = lnk,
            classes = map (\<lambda>k. (k, generateClassName w n k)) (map fst styles)\<rparr>,
          emit (CreateStyleSheet n lnk) (w\<lparr>sheets_created := Suc n\<rparr>)))"

definition attach :: "StyleSheet \<Rightarrow> world \<Rightarrow> world" where
  "attach sheet w = emit (Attach (sheet_id sheet)) w"

definition sheet_update :: "StyleSheet \<Rightarrow> config \<Rightarrow> world \<Rightarrow> world" where
  "sheet_update sheet cfg w = emit (UpdateSheet (sheet_id sheet) cfg) w"

definition detach :: "StyleSheet \<Rightarrow> world \<Rightarrow> world" where
  "detach sheet w = emit (Detach (sheet_id sheet)) w"

definition removeStyleSheet :: "StyleSheet \<Rightarrow> world \<Rightarrow> world" where
  "removeStyleSheet sheet w = emit (RemoveStyleSheet (sheet_id sheet)) w"

definition stylesheetManager_add :: "StyleSheet \<Rightarrow> StyleSheet \<Rightarrow> world \<Rightarrow> world" where
  "stylesheetManager_add key sheet w = emit (ManagerAdd (sheet_id key) (sheet_id sheet)) w"

definition stylesheetManager_manage :: "StyleSheet \<Rightarrow> world \<Rightarrow> world" where
  "stylesheetManager_manage key w = emit (ManagerManage (sheet_id key)) w"

definition stylesheetManager_unmanage :: "StyleSheet \<Rightarrow> world \<Rightarrow> world" where
  "stylesheetManager_unmanage key w = emit (ManagerUnmanage (sheet_id key)) w"

text \<open>A \<open>WeakMap<any, string>\<close>, keyed by the identity of an object. \<open>get\<close> of a key
  that is not an object is \<open>undefined\<close>; \<open>set\<close> of such a key raises a TypeError.\<close>

type_synonym weakmap = "(nat \<times> string) list"

definition weakmap_get :: "weakmap \<Rightarrow> nat option \<Rightarrow> string option" where
  "weakmap_get m key = (case key of None \<Rightarrow> None | Some r \<Rightarrow> map_of m r)"

definition weakmap_set :: "weakmap \<Rightarrow> nat option \<Rightarrow> string \<Rightarrow> error + weakmap" where
  "weakmap_set m key v = (case key of None \<Rightarrow> Inl TypeError | Some r \<Rightarrow> Inr (set_property r v m))"

text \<open>\<open>Boolean(v)\<close> of a string or \<open>undefined\<close>, and \<open>${v}\<close> in a template literal.\<close>

definition truthy :: "string option \<Rightarrow> bool" where
  "truthy v = (case v of None \<Rightarrow> False | Some s \<Rightarrow> s \<noteq> [])"

definition template :: "string option \<Rightarrow> string" where
  "template v = (case v of None \<Rightarrow> ''undefined'' | Some s \<Rightarrow> s)"

subsection \<open>The class JSSManager and its instances\<close>

text \<open>\<open>ISeparatedStylesheet\<close>. \<open>identity\<close> names the object: two separated
  stylesheets are the same object exactly when their identities agree.\<close>

record ISeparatedStylesheet =
  identity :: nat
  staticStyles :: "ComponentStyles option"
  sharedStyleSheet :: "StyleSheet option"
  dynamicStyles :: "ComponentStyles option"

text \<open>A style object passed to \<open>manageJss\<close>: its identity and its content.\<close>

record style_object =
  oid :: nat
  rules :: ComponentStyles

text \<open>The base component: its identity and which of the hooks it defines. Its element
  \<open>el\<close> exists.\<close>

record BaseComponent =
  base_oid :: nat
  has_ngOnInit :: bool
  has_ngAfterContentInit :: bool
  has_ngAfterViewInit :: bool

text \<open>The identity of \<open>Component\<close>, the decorator imported from @angular/core, which is
  the key the source looks up in \<open>componentMap\<close>.\<close>

definition Component :: nat where
  "Component = 0"

text \<open>One class \<open>JSSManager\<close>: the \<open>styles\<close> and \<open>BaseComponent\<close> of its closure and its
  static members.\<close>

record JSSManager =
  styles :: "style_object option"
  base :: BaseComponent
  componentMap :: weakmap
  styleMap :: weakmap
  separatedStyles :: "ISeparatedStylesheet object"

text \<open>\<open>manageJss(styles)(BaseComponent)\<close>: the class declaration is evaluated on every
  call, so every call gives a class with static members of its own.\<close>

definition manageJss :: "style_object option \<Rightarrow> BaseComponent \<Rightarrow> JSSManager" where
  "manageJss s b =
     \<lparr>styles = s, base = b, componentMap = [], styleMap = [], separatedStyles = []\<rparr>"

text \<open>An instance: its own fields, the \<open>config\<close> of the base component, and the listeners
  the instance has registered on its element, by event name (the source registers one
  listener for \<open>getConfig\<close> and one for \<open>update\<close>).\<close>

record component =
  instanceId :: "string option"
  className :: jsvalue
  state :: "IJSSManagerState option"
  config :: "config option"
  listeners :: "eventNames list"

definition new_component :: component where
  "new_component =
     \<lparr>instanceId = None, className = Undefined, state = None, config = None, listeners = []\<rparr>"

definition designSystem :: "component \<Rightarrow> config" where
  "designSystem i = (case config i of Some c \<Rightarrow> c | None \<Rightarrow> [])"

definition super :: "bool \<Rightarrow> hook \<Rightarrow> world \<Rightarrow> world" where
  "super defined h w = (if defined then emit (Super h) w else w)"

subsection \<open>Events on the element\<close>

text \<open>The listener of \<open>getConfig\<close> (lines 121 to 127). A configuration that is not an
  object (\<open>null\<close>, \<open>undefined\<close>) is \<open>None\<close>.\<close>

definition onGetConfig :: "config option \<Rightarrow> world \<times> component \<Rightarrow> error + world \<times> component" where
  "onGetConfig detail wi =
     (case wi of (w, i) \<Rightarrow>
        let i' = i\<lparr>config := detail\<rparr>
        in case state i' of
             None \<Rightarrow> Inl TypeError
           | Some st \<Rightarrow>
               (case dynamicStyleSheet st of
                  Some d \<Rightarrow> Inr (sheet_update d (designSystem i') w, i')
                | None \<Rightarrow> Inr (w, i')))"

fun repeatedly :: "nat \<Rightarrow> ('s \<Rightarrow> error + 's) \<Rightarrow> 's \<Rightarrow> error + 's" where
  "repeatedly 0 f s = Inr s"
| "repeatedly (Suc n) f s = and_then (f s) (repeatedly n f)"

definition registered :: "eventNames \<Rightarrow> component \<Rightarrow> nat" where
  "registered name i = length (filter (\<lambda>n. n = name) (listeners i))"

text \<open>A \<open>getConfig\<close> event reaches the element: every listener registered for it runs.\<close>

definition receive_getConfig :: "config option \<Rightarrow> world \<times> component \<Rightarrow> error + world \<times> component" where
  "receive_getConfig detail wi = repeatedly (registered GetConfig (snd wi)) (onGetConfig detail) wi"

text \<open>The listener of \<open>update\<close> (lines 135 to 137) dispatches \<open>updateStylesEvent\<close>, a
  \<open>getConfig\<close> event whose detail is the empty object.\<close>

definition onUpdate :: "world \<times> component \<Rightarrow> error + world \<times> component" where
  "onUpdate wi =
     (case wi of (w, i) \<Rightarrow> receive_getConfig (Some []) (emit (DispatchEvent GetConfig (Some [])) w, i))"

definition receive :: "eventNames \<Rightarrow> config option \<Rightarrow> world \<times> component \<Rightarrow> error + world \<times> component" where
  "receive name detail wi =
     (case name of
        GetConfig \<Rightarrow> receive_getConfig detail wi
      | Update \<Rightarrow> repeatedly (registered Update (snd wi)) onUpdate wi
      | RegisterComponent \<Rightarrow> Inr wi
      | DeregisterComponent \<Rightarrow> Inr wi)"

text \<open>\<open>this.el.nativeElement.dispatchEvent(e)\<close>, called by the manager itself.\<close>

definition dispatchEvent :: "eventNames \<Rightarrow> config option \<Rightarrow> world \<times> component \<Rightarrow> error + world \<times> component" where
  "dispatchEvent name detail wi =
     (case wi of (w, i) \<Rightarrow> receive name detail (emit (DispatchEvent name detail) w, i))"

definition addEventListener :: "eventNames \<Rightarrow> world \<times> component \<Rightarrow> world \<times> component" where
  "addEventListener name wi =
     (case wi of (w, i) \<Rightarrow> (emit (AddEventListener name) w, i\<lparr>listeners := listeners i @ [name]\<rparr>))"

subsection \<open>The lifecycle hooks\<close>

definition ngOnInit :: "JSSManager \<Rightarrow> world \<times> component \<Rightarrow> error + world \<times> component" where
  "ngOnInit c wi =
     (case wi of (w, i) \<Rightarrow>
        let w0 = super (has_ngOnInit (base c)) NgOnInit w;
            i0 = i\<lparr>state := Some \<lparr>dynamicStyleSheet = None, staticStyleSheet = None\<rparr>\<rparr>
        in and_then (dispatchEvent RegisterComponent None (addEventListener GetConfig (w0, i0)))
             (\<lambda>wi1. and_then (dispatchEvent GetConfig (Some []) wi1)
                (\<lambda>wi2. Inr (addEventListener Update wi2))))"

text \<open>\<open>separateStyles\<close>. The object it returns is a new one.\<close>

definition separateStyles :: "style_object \<Rightarrow> world \<Rightarrow> ISeparatedStylesheet \<times> world" where
  "separateStyles componentStyles w =
     (let w1 = emit (GetDynamicStyles (oid componentStyles)) w;
          dynamicStyles = getDynamicStyles (rules componentStyles);
          w2 = emit (GetStaticStyles (oid componentStyles)) w1;
          staticStyles = getStaticStyles (rules componentStyles);
          separated = \<lparr>identity = objects_created w2, staticStyles = None,
                        sharedStyleSheet = None, dynamicStyles = None\<rparr>;
          w3 = w2\<lparr>objects_created := Suc (objects_created w2)\<rparr>;
          separated1 = (case dynamicStyles of
                          Some d \<Rightarrow> if \<not> isEmptyObject d
                                    then separated\<lparr>dynamicStyles := Some d\<rparr> else separated
                        | None \<Rightarrow> separated)
      in case staticStyles of
           Some s \<Rightarrow>
             if \<not> isEmptyObject s
             then (case createStyleSheet s False w3 of
                     (sheet, w4) \<Rightarrow>
                       (separated1\<lparr>staticStyles := Some s, sharedStyleSheet := Some sheet\<rparr>, w4))
             else (separated1, w3)
         | None \<Rightarrow> (separated1, w3))"

text \<open>\<open>if (!Boolean(map.get(key))) { map.set(key, uuid()); }\<close> (lines 147 to 153).\<close>

definition remember :: "weakmap \<Rightarrow> nat option \<Rightarrow> world \<Rightarrow> error + weakmap \<times> world" where
  "remember m key w =
     (if \<not> truthy (weakmap_get m key)
      then (case uuid w of (u, w') \<Rightarrow>
              and_then (weakmap_set m key u) (\<lambda>m'. Inr (m', w')))
      else Inr (m, w))"

text \<open>
  Lines 147 to 166 of \<open>ngAfterContentInit\<close>: the instance id and the separated stylesheet
  stored under it, created when there is none. A class whose \<open>styles\<close> is \<open>undefined\<close>
  does not get past \<open>styleMap.set\<close>, which raises; the branch for \<open>undefined\<close> styles
  after the lookup is there for totality and is never reached.
\<close>

definition separatedStylesInstance ::
    "world \<times> JSSManager \<Rightarrow> error + (string \<times> ISeparatedStylesheet) \<times> world \<times> JSSManager" where
  "separatedStylesInstance wc =
     (case wc of (w, c) \<Rightarrow>
        and_then (remember (styleMap c) (map_option oid (styles c)) w)
          (\<lambda>(sm, w1). and_then (remember (componentMap c) (Some Component) w1)
             (\<lambda>(cm, w2).
                let c1 = c\<lparr>styleMap := sm, componentMap := cm\<rparr>;
                    styleId = weakmap_get sm (map_option oid (styles c));
                    componentId = weakmap_get cm (Some Component);
                    instId = template componentId @ template styleId
                in case map_of (separatedStyles c1) instId of
                     Some separated \<Rightarrow> Inr ((instId, separated), w2, c1)
                   | None \<Rightarrow>
                       (case styles c1 of
                          None \<Rightarrow> Inl TypeError
                        | Some componentStyles \<Rightarrow>
                            (case separateStyles componentStyles w2 of
                               (separated, w3) \<Rightarrow>
                                 Inr ((instId, separated), w3,
                                      c1\<lparr>separatedStyles :=
                                           set_property instId separated (separatedStyles c1)\<rparr>))))))"

text \<open>\<open>Object.keys(styles)[0]\<close> used as a property name: \<open>undefined\<close> names the
  property "undefined"; \<open>Object.keys(undefined)\<close> raises a TypeError.\<close>

definition first_key :: "style_object option \<Rightarrow> error + string" where
  "first_key s =
     (case s of
        None \<Rightarrow> Inl TypeError
      | Some so \<Rightarrow> Inr (template (case map fst (rules so) of [] \<Rightarrow> None | k # _ \<Rightarrow> Some k)))"

text \<open>Lines 171 to 189 of \<open>ngAfterContentInit\<close>: the state of the instance, with the shared
  static handle when there is one and a new dynamic handle when there are dynamic
  styles.\<close>

definition createState :: "ISeparatedStylesheet \<Rightarrow> world \<Rightarrow> IJSSManagerState \<times> world" where
  "createState separated w =
     (case dynamicStyles separated of
        Some d \<Rightarrow>
          (case createStyleSheet d True w of
             (sheet, w') \<Rightarrow>
               (\<lparr>dynamicStyleSheet = Some sheet, staticStyleSheet = sharedStyleSheet separated\<rparr>, w'))
      | None \<Rightarrow>
          (\<lparr>dynamicStyleSheet = None, staticStyleSheet = sharedStyleSheet separated\<rparr>, w))"

definition ngAfterContentInit ::
    "world \<times> JSSManager \<times> component \<Rightarrow> error + world \<times> JSSManager \<times> component" where
  "ngAfterContentInit wci =
     (case wci of (w, c, i) \<Rightarrow>
        and_then (separatedStylesInstance (super (has_ngAfterContentInit (base c)) NgAfterContentInit w, c))
          (\<lambda>((instId, separated), w1, c1).
             case createState separated w1 of
               (st, w2) \<Rightarrow>
                 and_then (getClassNames st)
                   (\<lambda>classNames. and_then (first_key (styles c1))
                      (\<lambda>key. Inr (w2, c1, i\<lparr>instanceId := Some instId, state := Some st,
                                              className := get_property classNames key\<rparr>)))))"

definition ngAfterViewInit :: "JSSManager \<Rightarrow> world \<times> component \<Rightarrow> error + world \<times> component" where
  "ngAfterViewInit c wi =
     (case wi of (w, i) \<Rightarrow>
        let w0 = super (has_ngAfterViewInit (base c)) NgAfterViewInit w
        in case state i of
             None \<Rightarrow> Inl TypeError
           | Some st \<Rightarrow>
               let w1 = (case staticStyleSheet st of
                           Some s \<Rightarrow> stylesheetManager_manage s (stylesheetManager_add s s w0)
                         | None \<Rightarrow> w0);
                   w2 = (case dynamicStyleSheet st of
                           Some d \<Rightarrow> sheet_update d (designSystem i) (attach d w1)
                         | None \<Rightarrow> w1)
               in Inr (w2, i))"

definition ngOnDestroy :: "world \<times> component \<Rightarrow> error + world \<times> component" where
  "ngOnDestroy wi =
     (case wi of (w, i) \<Rightarrow>
        case state i of
          None \<Rightarrow> Inl TypeError
        | Some st \<Rightarrow>
            let w1 = (case staticStyleSheet st of
                        Some s \<Rightarrow> stylesheetManager_unmanage s w
                      | None \<Rightarrow> w);
                w2 = (case dynamicStyleSheet st of
                        Some d \<Rightarrow> removeStyleSheet d (detach d w1)
                      | None \<Rightarrow> w1)
            in dispatchEvent DeregisterComponent None (w2, i))"

subsection \<open>Rule trees as nested mappings\<close>

text \<open>What a rule tree holds at a path of rule names: a literal, a resolver or a nested
  tree (the tree itself at the empty path). Two trees whose objects have no key twice
  are equal, whatever the order of their keys, exactly when they hold the same at every
  path.\<close>

datatype node = LiteralNode string | ResolverNode "config \<Rightarrow> string" | NestedNode

fun node_at :: "ICSSRules \<Rightarrow> string list \<Rightarrow> node option" where
  "node_at t [] = Some NestedNode"
| "node_at t (k # p) =
     (case map_of t k of
        None \<Rightarrow> None
      | Some (Literal s) \<Rightarrow> (if p = [] then Some (LiteralNode s) else None)
      | Some (Resolver f) \<Rightarrow> (if p = [] then Some (ResolverNode f) else None)
      | Some (Nested t') \<Rightarrow> node_at t' p)"

text \<open>The union of a static and a dynamic subtree at every nesting level: a name that is
  a nested tree on both sides holds the union of the two nested trees.\<close>

fun recombine :: "ICSSRules \<Rightarrow> ICSSRules \<Rightarrow> ICSSRules" where
  "recombine [] d = d"
| "recombine ((k, v) # s) d =
     (case (v, map_of d k) of
        (Nested a, Some (Nested b)) \<Rightarrow> (k, Nested (recombine a b))
      | _ \<Rightarrow> (k, v)) # recombine s (filter (\<lambda>p. fst p \<noteq> k) d)"

text \<open>No object of the tree has a key twice, as in every JavaScript object.\<close>

fun distinct_keys :: "ICSSRules \<Rightarrow> bool" where
  "distinct_keys [] = True"
| "distinct_keys ((k, v) # rs) =
     (k \<notin> set (map fst rs) \<and> (case v of Nested t \<Rightarrow> distinct_keys t | _ \<Rightarrow> True) \<and> distinct_keys rs)"

text \<open>A tree that holds a literal or a resolver at some depth, and a tree none of whose
  nested trees is recursively empty.\<close>

fun has_rule :: "ICSSRules \<Rightarrow> bool" where
  "has_rule [] = False"
| "has_rule ((k, Literal s) # rs) = True"
| "has_rule ((k, Resolver f) # rs) = True"
| "has_rule ((k, Nested t) # rs) = (has_rule t \<or> has_rule rs)"

fun no_empty_nested :: "ICSSRules \<Rightarrow> bool" where
  "no_empty_nested [] = True"
| "no_empty_nested ((k, Nested t) # rs) = (has_rule t \<and> no_empty_nested t \<and> no_empty_nested rs)"
| "no_empty_nested ((k, v) # rs) = no_empty_nested rs"

text \<open>The two subtrees of a separated stylesheet; an absent field is the empty tree.\<close>

definition static_subtree :: "ISeparatedStylesheet \<Rightarrow> ICSSRules" where
  "static_subtree separated = (case staticStyles separated of Some s \<Rightarrow> s | None \<Rightarrow> [])"

definition dynamic_subtree :: "ISeparatedStylesheet \<Rightarrow> ICSSRules" where
  "dynamic_subtree separated = (case dynamicStyles separated of Some d \<Rightarrow> d | None \<Rightarrow> [])"

text \<open>The world before any call, with a class-name generator that appends a dash and
  the number of the sheet to the rule name.\<close>

definition initial_world :: world where
  "initial_world =
     \<lparr>uuid_calls = 0, sheets_created = 0, objects_created = 0,
      generateClassName = (\<lambda>n k. k @ CHR ''-'' # replicate n CHR ''i''), trace = []\<rparr>"

subsection \<open>Sequences of configurations\<close>

text \<open>Configuration objects delivered to the element one after the other, each as the
  detail of a \<open>getConfig\<close> event.\<close>

fun deliver_all :: "config list \<Rightarrow> world \<times> component \<Rightarrow> error + world \<times> component" where
  "deliver_all [] wi = Inr wi"
| "deliver_all (cfg # cfgs) wi = and_then (receive GetConfig (Some cfg) wi) (deliver_all cfgs)"

subsection \<open>Mounting instances and counting calls\<close>

text \<open>A class that has remembered the ids of its style object and of \<open>Component\<close> and
  holds a separated stylesheet under the instance id made of them.\<close>

definition cached :: "JSSManager \<Rightarrow> ISeparatedStylesheet \<Rightarrow> bool" where
  "cached c separated =
     (case styles c of
        None \<Rightarrow> False
      | Some so \<Rightarrow>
          truthy (weakmap_get (styleMap c) (Some (oid so)))
          \<and> truthy (weakmap_get (componentMap c) (Some Component))
          \<and> map_of (separatedStyles c)
               (template (weakmap_get (componentMap c) (Some Component))
                @ template (weakmap_get (styleMap c) (Some (oid so)))) = Some separated)"

text \<open>The instance id of a class: \<open>`${componentId}${styleId}`\<close>.\<close>

definition instance_key :: "JSSManager \<Rightarrow> string" where
  "instance_key c =
     template (weakmap_get (componentMap c) (Some Component))
     @ template (weakmap_get (styleMap c) (map_option oid (styles c)))"

text \<open>Mounting one new instance of a class: the framework calls \<open>ngOnInit\<close>,
  \<open>ngAfterContentInit\<close> and \<open>ngAfterViewInit\<close>, in this order.\<close>

definition mount :: "world \<times> JSSManager \<Rightarrow> error + world \<times> JSSManager \<times> component" where
  "mount wc =
     (case wc of (w, c) \<Rightarrow>
        and_then (ngOnInit c (w, new_component))
          (\<lambda>(w1, i1). and_then (ngAfterContentInit (w1, c, i1))
             (\<lambda>(w2, c2, i2). and_then (ngAfterViewInit c2 (w2, i2))
                (\<lambda>(w3, i3). Inr (w3, c2, i3)))))"

text \<open>Mounting n new instances of a class, one after the other.\<close>

fun mount_times :: "nat \<Rightarrow> world \<times> JSSManager \<Rightarrow> error + world \<times> JSSManager \<times> component list" where
  "mount_times 0 wc = Inr (fst wc, snd wc, [])"
| "mount_times (Suc n) wc =
     and_then (mount wc)
       (\<lambda>(w1, c1, i). and_then (mount_times n (w1, c1))
          (\<lambda>(w2, c2, is). Inr (w2, c2, i # is)))"

text \<open>The calls that are counted: an extraction of the dynamic rule tree
  (\<open>getDynamicStyles\<close>), a call of either classification helper, a compilation of a static
  stylesheet (\<open>createStyleSheet\<close> without options, in \<open>separateStyles\<close>), the creation of a
  dynamic handle (\<open>createStyleSheet\<close> with \<open>link: true\<close>) and a registration with the shared
  manager (\<open>stylesheetManager.add\<close>).\<close>

fun is_extraction :: "call \<Rightarrow> bool" where
  "is_extraction (GetDynamicStyles n) = True"
| "is_extraction c = False"

fun is_classification :: "call \<Rightarrow> bool" where
  "is_classification (GetDynamicStyles n) = True"
| "is_classification (GetStaticStyles n) = True"
| "is_classification c = False"

fun is_static_compilation :: "call \<Rightarrow> bool" where
  "is_static_compilation (CreateStyleSheet n lnk) = (\<not> lnk)"
| "is_static_compilation c = False"

fun is_dynamic_handle :: "call \<Rightarrow> bool" where
  "is_dynamic_handle (CreateStyleSheet n lnk) = lnk"
| "is_dynamic_handle c = False"

fun is_registration :: "call \<Rightarrow> bool" where
  "is_registration (ManagerAdd k n) = True"
| "is_registration c = False"

definition count_calls :: "(call \<Rightarrow> bool) \<Rightarrow> world \<Rightarrow> nat" where
  "count_calls P w = length (filter P (trace w))"

text \<open>The calls of \<open>ngOnInit\<close> on a new instance, followed by the call of the base hook
  in \<open>ngAfterContentInit\<close>; and the calls of \<open>ngAfterViewInit\<close> on an instance whose
  configuration is the empty object.\<close>

definition init_calls :: "JSSManager \<Rightarrow> call list" where
  "init_calls c =
     (if has_ngOnInit (base c) then [Super NgOnInit] else [])
     @ [AddEventListener GetConfig, DispatchEvent RegisterComponent None,
        DispatchEvent GetConfig (Some []), AddEventListener Update]
     @ (if has_ngAfterContentInit (base c) then [Super NgAfterContentInit] else [])"

definition view_calls :: "JSSManager \<Rightarrow> IJSSManagerState \<Rightarrow> call list" where
  "view_calls c st =
     (if has_ngAfterViewInit (base c) then [Super NgAfterViewInit] else [])
     @ (case staticStyleSheet st of
          Some s \<Rightarrow> [ManagerAdd (sheet_id s) (sheet_id s), ManagerManage (sheet_id s)]
        | None \<Rightarrow> [])
     @ (case dynamicStyleSheet st of
          Some d \<Rightarrow> [Attach (sheet_id d), UpdateSheet (sheet_id d) []]
        | None \<Rightarrow> [])"

text \<open>Mounting one instance of a first class and then one instance of a second class;
  and the number of counted calls in the world a run ends in.\<close>

definition mount_two ::
    "JSSManager \<Rightarrow> JSSManager \<Rightarrow> world
     \<Rightarrow> error + world \<times> (JSSManager \<times> component) \<times> (JSSManager \<times> component)" where
  "mount_two cA cB w =
     and_then (mount (w, cA))
       (\<lambda>(w1, cA', iA). and_then (mount (w1, cB))
          (\<lambda>(w2, cB', iB). Inr (w2, (cA', iA), (cB', iB))))"

definition calls_after :: "(call \<Rightarrow> bool) \<Rightarrow> error + world \<times> 'a \<Rightarrow> nat option" where
  "calls_after P r = (case r of Inl e \<Rightarrow> None | Inr (w, x) \<Rightarrow> Some (count_calls P w))"

subsection \<open>Examples\<close>

text \<open>A style object with one rule that has a resolver and a literal, and two base
  components.\<close>

definition button_styles :: style_object where
  "button_styles =
     \<lparr>oid = 7,
      rules = [(''button'',
                Nested [(''color'', Resolver (\<lambda>cfg. case map_of cfg ''color'' of
                                                    Some v \<Rightarrow> v | None \<Rightarrow> ''black'')),
                        (''width'', Literal ''1px'')])]\<rparr>"

definition component_A :: BaseComponent where
  "component_A = \<lparr>base_oid = 1, has_ngOnInit = True, has_ngAfterContentInit = False,
                   has_ngAfterViewInit = False\<rparr>"

definition component_B :: BaseComponent where
  "component_B = \<lparr>base_oid = 2, has_ngOnInit = False, has_ngAfterContentInit = False,
                   has_ngAfterViewInit = True\<rparr>"

text \<open>The instance that mounting \<open>button_styles\<close> on \<open>component_A\<close> in the initial
  world gives.\<close>

definition mounted_example :: component where
  "mounted_example =
     \<lparr>instanceId = Some ''uiu'', className = Str ''button- button-i'',
      state = Some
        \<lparr>dynamicStyleSheet = Some
           \<lparr>sheet_id = 1, sheet_styles = dynamic_rules (rules button_styles), link = True,
            classes = [(''button'', ''button-i'')]\<rparr>,
         staticStyleSheet = Some
           \<lparr>sheet_id = 0, sheet_styles = static_rules (rules button_styles), link = False,
            classes = [(''button'', ''button-'')]\<rparr>\<rparr>,
      config = Some [], listeners = [GetConfig, Update]\<rparr>"

subsection \<open>Runs of one instance and the order of calls\<close>

text \<open>What may happen to an instance once \<open>ngOnInit\<close> has run: the two later hooks, a
  \<open>getConfig\<close> event with some detail, an \<open>update\<close> event, and \<open>ngOnDestroy\<close>.\<close>

datatype action = ContentInit | ViewInit | Configure "config option" | Refresh | Destroy

fun step :: "action \<Rightarrow> world \<times> JSSManager \<times> component \<Rightarrow> error + world \<times> JSSManager \<times> component" where
  "step ContentInit (w, c, i) = ngAfterContentInit (w, c, i)"
| "step ViewInit (w, c, i) = and_then (ngAfterViewInit c (w, i)) (\<lambda>(w', i'). Inr (w', c, i'))"
| "step (Configure detail) (w, c, i) =
     and_then (receive GetConfig detail (w, i)) (\<lambda>(w', i'). Inr (w', c, i'))"
| "step Refresh (w, c, i) = and_then (receive Update None (w, i)) (\<lambda>(w', i'). Inr (w', c, i'))"
| "step Destroy (w, c, i) = and_then (ngOnDestroy (w, i)) (\<lambda>(w', i'). Inr (w', c, i'))"

fun run :: "action list \<Rightarrow> world \<times> JSSManager \<times> component \<Rightarrow> error + world \<times> JSSManager \<times> component" where
  "run [] s = Inr s"
| "run (a # as) s = and_then (step a s) (run as)"

text \<open>In a record of calls: every handle that is registered with the shared manager,
  managed or attached has been created earlier in the record (or is among \<open>created\<close>);
  and every handle that is updated has been attached earlier.\<close>

fun created_before_use :: "nat list \<Rightarrow> call list \<Rightarrow> bool" where
  "created_before_use created [] = True"
| "created_before_use created (CreateStyleSheet n lnk # cs) = created_before_use (n # created) cs"
| "created_before_use created (ManagerAdd k n # cs) =
     (k \<in> set created \<and> n \<in> set created \<and> created_before_use created cs)"
| "created_before_use created (ManagerManage n # cs) =
     (n \<in> set created \<and> created_before_use created cs)"
| "created_before_use created (Attach n # cs) =
     (n \<in> set created \<and> created_before_use created cs)"
| "created_before_use created (c # cs) = created_before_use created cs"

fun attached_before_update :: "nat list \<Rightarrow> call list \<Rightarrow> bool" where
  "attached_before_update attached [] = True"
| "attached_before_update attached (Attach n # cs) = attached_before_update (n # attached) cs"
| "attached_before_update attached (UpdateSheet n cfg # cs) =
     (n \<in> set attached \<and> attached_before_update attached cs)"
| "attached_before_update attached (c # cs) = attached_before_update attached cs"

text \<open>The handles a record of calls creates; a handle, the cache of a class and the
  state of an instance that hold only handles created in the record of the world.\<close>

fun created_ids :: "call list \<Rightarrow> nat list" where
  "created_ids [] = []"
| "created_ids (CreateStyleSheet n lnk # cs) = n # created_ids cs"
| "created_ids (c # cs) = created_ids cs"

definition sheet_created :: "world \<Rightarrow> StyleSheet option \<Rightarrow> bool" where
  "sheet_created w sheet =
     (case sheet of None \<Rightarrow> True | Some s \<Rightarrow> sheet_id s \<in> set (created_ids (trace w)))"

definition cache_created :: "world \<Rightarrow> JSSManager \<Rightarrow> bool" where
  "cache_created w c = list_all (\<lambda>(k, separated). sheet_created w (sharedStyleSheet separated)) (separatedStyles c)"

definition state_created :: "world \<Rightarrow> component \<Rightarrow> bool" where
  "state_created w i =
     (case state i of
        None \<Rightarrow> True
      | Some st \<Rightarrow> sheet_created w (staticStyleSheet st) \<and> sheet_created w (dynamicStyleSheet st))"

definition well_ordered :: "world \<times> JSSManager \<times> component \<Rightarrow> bool" where
  "well_ordered s =
     (case s of (w, c, i) \<Rightarrow>
        created_before_use [] (trace w) \<and> cache_created w c \<and> state_created w i)"

text \<open>Calls that neither create nor use a handle.\<close>

fun neutral :: "call \<Rightarrow> bool" where
  "neutral (CreateStyleSheet n lnk) = False"
| "neutral (ManagerAdd k n) = False"
| "neutral (ManagerManage n) = False"
| "neutral (Attach n) = False"
| "neutral c = True"

text \<open>A new instance of a class: \<open>ngOnInit\<close>, then the given actions. The calls of a
  run that returns.\<close>

definition lifecycle :: "JSSManager \<Rightarrow> action list \<Rightarrow> world \<Rightarrow> error + world \<times> JSSManager \<times> component" where
  "lifecycle c acts w0 =
     and_then (ngOnInit c (w0, new_component)) (\<lambda>(w, i). run acts (w, c, i))"

definition calls_of :: "error + world \<times> 'a \<Rightarrow> call list option" where
  "calls_of r = (case r of Inl e \<Rightarrow> None | Inr (w, x) \<Rightarrow> Some (trace w))"

section \<open>Properties\<close>

lemma map_of_set_property:
  "map_of (set_property k v ps) = (map_of ps)(k \<mapsto> v)"
  by (induction ps) auto

lemma and_then_Inr [simp]: "and_then (Inr x) f = f x"
  by (simp add: and_then_def)

lemma and_then_Inl [simp]: "and_then (Inl e) f = Inl e"
  by (simp add: and_then_def)

subsection \<open>The class-name merge\<close>

lemma getClassNames_example:
  "getClassNames
     \<lparr>dynamicStyleSheet = Some \<lparr>sheet_id = 1, sheet_styles = [], link = True,
          classes = [(''b'', ''c3''), (''d'', ''c4'')]\<rparr>,
      staticStyleSheet = Some \<lparr>sheet_id = 0, sheet_styles = [], link = False,
          classes = [(''a'', ''c1''), (''b'', ''c2'')]\<rparr>\<rparr>
   = Inr [(''a'', ''c1''), (''b'', ''c2 c3''), (''d'', ''c4'')]"
  by (simp add: getClassNames_def object_assign_def merge_key_def hasOwnProperty_def
      put_property_def get_property_def to_string_def Object_prototype_def)

text \<open>
  C1. The merge is not as stated for every rule name. Line 285 tests
  \<open>typeof classNames[key] !== "undefined"\<close>, which reads through the prototype of the
  merged object, and line 284 calls \<open>hasOwnProperty\<close> as a method of the dynamic class
  map. With no static handle and the dynamic classes {constructor: "c9"}, the rule is only
  dynamic, yet its merged class name is not "c9" but the text of the function \<open>Object\<close>,
  a space and "c9". With the dynamic classes {hasOwnProperty: "c9"}, \<open>getClassNames\<close>
  raises a TypeError.
\<close>

theorem getClassNames_inherited_rule_name:
  "getClassNames
     \<lparr>dynamicStyleSheet = Some \<lparr>sheet_id = 1, sheet_styles = [], link = True,
          classes = [(''constructor'', ''c9'')]\<rparr>,
      staticStyleSheet = None\<rparr>
   = Inr [(''constructor'', ''function Object() { [native code] } c9'')]
   \<and> getClassNames
     \<lparr>dynamicStyleSheet = Some \<lparr>sheet_id = 1, sheet_styles = [], link = True,
          classes = [(''hasOwnProperty'', ''c9'')]\<rparr>,
      staticStyleSheet = None\<rparr>
   = Inl TypeError"
  by (simp add: getClassNames_def object_assign_def merge_key_def hasOwnProperty_def
      put_property_def get_property_def to_string_def Object_prototype_def)

lemma map_of_foldl_put_property:
  "distinct (map fst src) \<Longrightarrow> ''__proto__'' \<notin> fst ` set src \<Longrightarrow>
   map_of (foldl (\<lambda>acc (k, v). put_property k v acc) acc src) k =
     (case map_of src k of Some v \<Rightarrow> Some v | None \<Rightarrow> map_of acc k)"
proof (induction src arbitrary: acc)
  case Nil
  then show ?case by simp
next
  case (Cons p src)
  obtain k' v' where p: "p = (k', v')" by (cases p)
  from Cons.prems p have notin: "map_of src k' = None" and d: "distinct (map fst src)"
    and n: "''__proto__'' \<notin> fst ` set src" and k': "k' \<noteq> ''__proto__''"
    by (auto simp: map_of_eq_None_iff)
  show ?case
    using Cons.IH [OF d n, of "put_property k' v' acc"] notin k'
    by (auto simp: p put_property_def map_of_set_property split: option.splits)
qed

lemma map_of_object_assign:
  "distinct (map fst src) \<Longrightarrow> ''__proto__'' \<notin> fst ` set src
   \<Longrightarrow> map_of (object_assign src) = map_of src"
  by (rule ext) (simp add: object_assign_def map_of_foldl_put_property split: option.splits)

text \<open>The merge of one key whose name is not inherited, in an object that can be asked
  \<open>hasOwnProperty\<close>.\<close>

lemma merge_key_own_name:
  assumes "map_of dyn ''hasOwnProperty'' = None" and "key \<notin> set Object_prototype"
  shows "\<exists>cn. merge_key dyn acc key = Inr cn
     \<and> (\<forall>k. map_of cn k =
          (if k = key then
             (case map_of dyn key of
                None \<Rightarrow> map_of acc k
              | Some d \<Rightarrow> (case map_of acc key of Some s \<Rightarrow> Some (s @ '' '' @ d) | None \<Rightarrow> Some d))
           else map_of acc k))"
proof -
  from assms(2) have p: "key \<noteq> ''__proto__''"
    by (auto simp: Object_prototype_def)
  show ?thesis
    using assms p
    by (cases "map_of dyn key"; cases "map_of acc key")
       (simp_all add: merge_key_def hasOwnProperty_def get_property_def put_property_def
          to_string_def map_of_set_property)
qed

lemma merge_keys_own_names:
  assumes "map_of dyn ''hasOwnProperty'' = None"
  shows "distinct ks \<Longrightarrow> set ks \<inter> set Object_prototype = {} \<Longrightarrow>
     \<exists>cn. merge_keys dyn ks acc = Inr cn
     \<and> (\<forall>k. map_of cn k =
          (if k \<in> set ks then
             (case map_of dyn k of
                None \<Rightarrow> map_of acc k
              | Some d \<Rightarrow> (case map_of acc k of Some s \<Rightarrow> Some (s @ '' '' @ d) | None \<Rightarrow> Some d))
           else map_of acc k))"
proof (induction ks arbitrary: acc)
  case Nil
  then show ?case by simp
next
  case (Cons key ks)
  then have d: "distinct ks" and notin: "key \<notin> set ks"
    and o: "set ks \<inter> set Object_prototype = {}" and ko: "key \<notin> set Object_prototype"
    by auto
  from merge_key_own_name [OF assms ko, of acc] obtain cn1 where
    m: "merge_key dyn acc key = Inr cn1"
    and c1: "\<And>k. map_of cn1 k =
          (if k = key then
             (case map_of dyn key of
                None \<Rightarrow> map_of acc k
              | Some d \<Rightarrow> (case map_of acc key of Some s \<Rightarrow> Some (s @ '' '' @ d) | None \<Rightarrow> Some d))
           else map_of acc k)"
    by blast
  from Cons.IH [OF d o, of cn1] obtain cn where
    r: "merge_keys dyn ks cn1 = Inr cn"
    and c: "\<And>k. map_of cn k =
          (if k \<in> set ks then
             (case map_of dyn k of
                None \<Rightarrow> map_of cn1 k
              | Some d \<Rightarrow> (case map_of cn1 k of Some s \<Rightarrow> Some (s @ '' '' @ d) | None \<Rightarrow> Some d))
           else map_of cn1 k)"
    by blast
  have "merge_keys dyn (key # ks) acc = Inr cn"
    by (simp add: m r)
  moreover have "map_of cn k =
          (if k \<in> set (key # ks) then
             (case map_of dyn k of
                None \<Rightarrow> map_of acc k
              | Some d \<Rightarrow> (case map_of acc k of Some s \<Rightarrow> Some (s @ '' '' @ d) | None \<Rightarrow> Some d))
           else map_of acc k)" for k
    using notin by (auto simp: c c1 split: option.splits)
  ultimately show ?case by blast
qed

text \<open>
  For class maps none of whose rule names is a name of \<open>Object.prototype\<close>,
  \<open>getClassNames\<close> returns, and the merged class map holds, for every rule name, the
  static class name alone, the dynamic class name alone, or the static class name, one
  space and the dynamic class name.
\<close>

lemma getClassNames_own_names:
  assumes "distinct (map fst (static_classes st))"
    and "distinct (map fst (dynamic_classes st))"
    and "fst ` set (static_classes st) \<inter> set Object_prototype = {}"
    and "fst ` set (dynamic_classes st) \<inter> set Object_prototype = {}"
  shows "\<exists>cn. getClassNames st = Inr cn
     \<and> (\<forall>k. map_of cn k =
           (case (map_of (static_classes st) k, map_of (dynamic_classes st) k) of
              (None, None) \<Rightarrow> None
            | (Some s, None) \<Rightarrow> Some s
            | (None, Some d) \<Rightarrow> Some d
            | (Some s, Some d) \<Rightarrow> Some (s @ '' '' @ d)))"
proof -
  define acc where "acc = (case staticStyleSheet st of
                          Some s \<Rightarrow> object_assign (classes s)
                        | None \<Rightarrow> [])"
  have p: "''__proto__'' \<in> set Object_prototype" "''hasOwnProperty'' \<in> set Object_prototype"
    by (simp_all add: Object_prototype_def)
  with assms(3) have "''__proto__'' \<notin> fst ` set (static_classes st)" by blast
  with assms(1) have acc: "map_of acc = map_of (static_classes st)"
    by (auto simp: acc_def static_classes_def map_of_object_assign split: option.splits)
  show ?thesis
  proof (cases "dynamicStyleSheet st")
    case None
    then show ?thesis
      using acc
      by (simp add: getClassNames_def acc_def [symmetric] dynamic_classes_def
          split: option.splits)
  next
    case (Some d)
    then have dc: "dynamic_classes st = classes d" by (simp add: dynamic_classes_def)
    from assms(4) p(2) have h: "map_of (classes d) ''hasOwnProperty'' = None"
      by (auto simp: dc map_of_eq_None_iff)
    from assms(2) have dk: "distinct (map fst (classes d))" by (simp add: dc)
    from assms(4) have o: "set (map fst (classes d)) \<inter> set Object_prototype = {}"
      by (simp add: dc)
    from merge_keys_own_names [OF h dk o, of acc] obtain cn where
      r: "merge_keys (classes d) (map fst (classes d)) acc = Inr cn"
      and c: "\<And>k. map_of cn k =
          (if k \<in> set (map fst (classes d)) then
             (case map_of (classes d) k of
                None \<Rightarrow> map_of acc k
              | Some d \<Rightarrow> (case map_of acc k of Some s \<Rightarrow> Some (s @ '' '' @ d) | None \<Rightarrow> Some d))
           else map_of acc k)"
      by blast
    have n: "k \<notin> set (map fst (classes d)) \<Longrightarrow> map_of (classes d) k = None" for k
      by (simp add: map_of_eq_None_iff)
    have "getClassNames st = Inr cn"
      by (simp add: getClassNames_def Some acc_def [symmetric] r)
    moreover have "map_of cn k =
           (case (map_of (static_classes st) k, map_of (dynamic_classes st) k) of
              (None, None) \<Rightarrow> None
            | (Some s, None) \<Rightarrow> Some s
            | (None, Some d) \<Rightarrow> Some d
            | (Some s, Some d) \<Rightarrow> Some (s @ '' '' @ d))" for k
      using n [of k] by (auto simp: c acc dc split: option.splits)
    ultimately show ?thesis by blast
  qed
qed

text \<open>\<open>getClassNames\<close> raises only when the dynamic class map has an own property
  \<open>hasOwnProperty\<close>.\<close>

lemma merge_keys_returns:
  assumes "map_of dyn ''hasOwnProperty'' = None"
  shows "\<exists>cn. merge_keys dyn ks acc = Inr cn"
proof (induction ks arbitrary: acc)
  case Nil
  then show ?case by simp
next
  case (Cons key ks)
  from assms have "\<exists>cn1. merge_key dyn acc key = Inr cn1"
    by (cases "map_of dyn key") (simp_all add: merge_key_def hasOwnProperty_def)
  then obtain cn1 where "merge_key dyn acc key = Inr cn1" ..
  with Cons.IH [of cn1] show ?case by simp
qed

lemma getClassNames_returns:
  assumes "map_of (dynamic_classes st) ''hasOwnProperty'' = None"
  shows "\<exists>cn. getClassNames st = Inr cn"
  using assms merge_keys_returns [of "dynamic_classes st"]
  by (cases "dynamicStyleSheet st") (simp_all add: getClassNames_def dynamic_classes_def)

lemma merge_key_raises:
  "map_of dyn ''hasOwnProperty'' = Some y \<Longrightarrow> merge_key dyn acc key = Inl TypeError"
  by (simp add: merge_key_def hasOwnProperty_def)

lemma getClassNames_raises:
  assumes "map_of (dynamic_classes st) ''hasOwnProperty'' = Some y"
  shows "getClassNames st = Inl TypeError"
proof -
  from assms obtain d where d: "dynamicStyleSheet st = Some d"
    and m: "map_of (classes d) ''hasOwnProperty'' = Some y"
    by (auto simp: dynamic_classes_def split: option.splits)
  from m obtain p ps where "classes d = p # ps"
    by (cases "classes d") auto
  then have "map fst (classes d) = fst p # map fst ps" by simp
  then show ?thesis
    by (simp add: getClassNames_def d merge_key_raises [OF m])
qed

subsection \<open>Style separation\<close>

lemma recombine_Nil2: "recombine s [] = s"
  by (induction s "[] :: ICSSRules" rule: recombine.induct) (auto split: rule.splits)

lemma map_of_filter_neq:
  "map_of (filter (\<lambda>p. fst p \<noteq> k) d) k' = (if k' = k then None else map_of d k')"
  by (induction d) auto

lemma map_of_recombine:
  "map_of (recombine s d) k =
     (case map_of s k of
        None \<Rightarrow> map_of d k
      | Some v \<Rightarrow>
          (case (v, map_of d k) of
             (Nested a, Some (Nested b)) \<Rightarrow> Some (Nested (recombine a b))
           | _ \<Rightarrow> Some v))"
proof (induction s arbitrary: d)
  case Nil
  then show ?case by simp
next
  case (Cons e s)
  obtain k' v where e: "e = (k', v)" by (cases e)
  show ?case
    by (simp add: e Cons.IH map_of_filter_neq split: option.splits rule.splits)
qed

lemma has_rule_iff: "has_rule t \<longleftrightarrow> static_rules t \<noteq> [] \<or> dynamic_rules t \<noteq> []"
  by (induction t rule: has_rule.induct) (auto split: list.splits)

lemma static_rules_None: "map_of t k = None \<Longrightarrow> map_of (static_rules t) k = None"
  by (induction t rule: static_rules.induct) (auto split: list.splits if_splits)

lemma dynamic_rules_None: "map_of t k = None \<Longrightarrow> map_of (dynamic_rules t) k = None"
  by (induction t rule: dynamic_rules.induct) (auto split: list.splits if_splits)

lemma map_of_static_rules:
  "distinct (map fst t) \<Longrightarrow>
   map_of (static_rules t) k =
     (case map_of t k of
        None \<Rightarrow> None
      | Some (Literal s) \<Rightarrow> Some (Literal s)
      | Some (Resolver f) \<Rightarrow> None
      | Some (Nested t') \<Rightarrow> (case static_rules t' of [] \<Rightarrow> None | e # es \<Rightarrow> Some (Nested (e # es))))"
proof (induction t rule: static_rules.induct)
  case 1
  then show ?case by simp
next
  case (2 k' s rs)
  then show ?case by simp
next
  case (3 k' f rs)
  then have n: "map_of rs k' = None" by (simp add: map_of_eq_None_iff)
  with 3 static_rules_None [OF n] show ?case by simp
next
  case (4 k' t rs)
  then have n: "map_of rs k' = None" by (simp add: map_of_eq_None_iff)
  with 4 static_rules_None [OF n] show ?case by (simp split: list.splits)
qed

lemma map_of_dynamic_rules:
  "distinct (map fst t) \<Longrightarrow>
   map_of (dynamic_rules t) k =
     (case map_of t k of
        None \<Rightarrow> None
      | Some (Literal s) \<Rightarrow> None
      | Some (Resolver f) \<Rightarrow> Some (Resolver f)
      | Some (Nested t') \<Rightarrow> (case dynamic_rules t' of [] \<Rightarrow> None | e # es \<Rightarrow> Some (Nested (e # es))))"
proof (induction t rule: dynamic_rules.induct)
  case 1
  then show ?case by simp
next
  case (2 k' s rs)
  then have n: "map_of rs k' = None" by (simp add: map_of_eq_None_iff)
  with 2 dynamic_rules_None [OF n] show ?case by simp
next
  case (3 k' f rs)
  then show ?case by simp
next
  case (4 k' t rs)
  then have n: "map_of rs k' = None" by (simp add: map_of_eq_None_iff)
  with 4 dynamic_rules_None [OF n] show ?case by (simp split: list.splits)
qed

lemma distinct_keys_top: "distinct_keys t \<Longrightarrow> distinct (map fst t)"
  by (induction t rule: distinct_keys.induct) auto

lemma distinct_keys_child:
  "distinct_keys t \<Longrightarrow> map_of t k = Some (Nested t') \<Longrightarrow> distinct_keys t'"
  by (induction t rule: distinct_keys.induct) (auto split: if_splits)

lemma no_empty_nested_child:
  "no_empty_nested t \<Longrightarrow> map_of t k = Some (Nested t') \<Longrightarrow> has_rule t' \<and> no_empty_nested t'"
  by (induction t rule: no_empty_nested.induct) (auto split: if_splits)

lemma node_at_recombine:
  "distinct_keys t \<Longrightarrow> no_empty_nested t \<Longrightarrow>
   node_at (recombine (static_rules t) (dynamic_rules t)) p = node_at t p"
proof (induction p arbitrary: t)
  case Nil
  then show ?case by simp
next
  case (Cons k p)
  note d = distinct_keys_top [OF Cons.prems(1)]
  show ?case
  proof (cases "map_of t k")
    case None
    then show ?thesis
      by (simp add: map_of_recombine map_of_static_rules [OF d] map_of_dynamic_rules [OF d])
  next
    case (Some v)
    show ?thesis
    proof (cases v)
      case (Literal s)
      with Some show ?thesis
        by (simp add: map_of_recombine map_of_static_rules [OF d] map_of_dynamic_rules [OF d])
    next
      case (Resolver f)
      with Some show ?thesis
        by (simp add: map_of_recombine map_of_static_rules [OF d] map_of_dynamic_rules [OF d])
    next
      case (Nested t')
      with Some have m: "map_of t k = Some (Nested t')" by simp
      have d': "distinct_keys t'" by (rule distinct_keys_child [OF Cons.prems(1) m])
      have n': "has_rule t'" "no_empty_nested t'"
        using no_empty_nested_child [OF Cons.prems(2) m] by simp_all
      have IH: "node_at (recombine (static_rules t') (dynamic_rules t')) p = node_at t' p"
        by (rule Cons.IH [OF d' n'(2)])
      from n'(1) have ne: "static_rules t' \<noteq> [] \<or> dynamic_rules t' \<noteq> []"
        by (simp add: has_rule_iff)
      show ?thesis
      proof (cases "static_rules t'")
        case Nil
        with ne obtain e es where dy: "dynamic_rules t' = e # es" by (cases "dynamic_rules t'") auto
        from IH Nil dy show ?thesis
          by (simp add: m map_of_recombine map_of_static_rules [OF d] map_of_dynamic_rules [OF d])
      next
        case (Cons a as)
        show ?thesis
        proof (cases "dynamic_rules t'")
          case Nil
          with IH Cons show ?thesis
            by (simp add: m map_of_recombine map_of_static_rules [OF d] map_of_dynamic_rules [OF d]
                recombine_Nil2)
        next
          case (Cons b bs)
          with IH \<open>static_rules t' = a # as\<close> show ?thesis
            by (simp add: m map_of_recombine map_of_static_rules [OF d] map_of_dynamic_rules [OF d])
        qed
      qed
    qed
  qed
qed

lemma node_at_static_rules:
  "distinct_keys t \<Longrightarrow> node_at (static_rules t) p \<noteq> Some (ResolverNode f)"
proof (induction p arbitrary: t)
  case Nil
  then show ?case by simp
next
  case (Cons k p)
  note d = distinct_keys_top [OF Cons.prems(1)]
  show ?case
    using Cons.IH distinct_keys_child [OF Cons.prems(1), of k]
    apply (simp add: map_of_static_rules [OF d] split: option.splits rule.splits list.splits)
    by (metis list.distinct(1))
qed

lemma node_at_dynamic_rules:
  "distinct_keys t \<Longrightarrow> node_at (dynamic_rules t) p \<noteq> Some (LiteralNode s)"
proof (induction p arbitrary: t)
  case Nil
  then show ?case by simp
next
  case (Cons k p)
  note d = distinct_keys_top [OF Cons.prems(1)]
  show ?case
    using Cons.IH distinct_keys_child [OF Cons.prems(1), of k]
    apply (simp add: map_of_dynamic_rules [OF d] split: option.splits rule.splits list.splits)
    by (metis list.distinct(1))
qed

lemma node_at_static_rules_original:
  "distinct_keys t \<Longrightarrow> node_at (static_rules t) p = Some n \<Longrightarrow> node_at t p = Some n"
proof (induction p arbitrary: t)
  case Nil
  then show ?case by simp
next
  case (Cons k p)
  note d = distinct_keys_top [OF Cons.prems(1)]
  show ?case
    using Cons.prems(2) Cons.IH distinct_keys_child [OF Cons.prems(1), of k]
    by (auto simp: map_of_static_rules [OF d] split: option.splits rule.splits list.splits if_splits)
qed

lemma node_at_dynamic_rules_original:
  "distinct_keys t \<Longrightarrow> node_at (dynamic_rules t) p = Some n \<Longrightarrow> node_at t p = Some n"
proof (induction p arbitrary: t)
  case Nil
  then show ?case by simp
next
  case (Cons k p)
  note d = distinct_keys_top [OF Cons.prems(1)]
  show ?case
    using Cons.prems(2) Cons.IH distinct_keys_child [OF Cons.prems(1), of k]
    by (auto simp: map_of_dynamic_rules [OF d] split: option.splits rule.splits list.splits if_splits)
qed

lemma static_subtree_separateStyles:
  "static_subtree (fst (separateStyles so w)) = static_rules (rules so)"
  by (simp add: separateStyles_def static_subtree_def getStaticStyles_def getDynamicStyles_def
      isEmptyObject_def createStyleSheet_def Let_def split: list.splits)

lemma dynamic_subtree_separateStyles:
  "dynamic_subtree (fst (separateStyles so w)) = dynamic_rules (rules so)"
  by (simp add: separateStyles_def dynamic_subtree_def getStaticStyles_def getDynamicStyles_def
      isEmptyObject_def createStyleSheet_def Let_def split: list.splits)

text \<open>
  C5, as amended. For every style object whose tree has no key twice in one object and no
  recursively empty nested tree, the union at every nesting level of the static and the
  dynamic subtree that \<open>separateStyles\<close> stores holds at every path what the original
  tree holds there; and a path that is present in both subtrees is a nested tree in both,
  never a literal or a resolver.
\<close>

theorem separateStyles_recombine:
  assumes "distinct_keys (rules so)" and "no_empty_nested (rules so)"
  shows "node_at (recombine (static_subtree (fst (separateStyles so w)))
                            (dynamic_subtree (fst (separateStyles so w)))) p
           = node_at (rules so) p
         \<and> (node_at (static_subtree (fst (separateStyles so w))) p = None
            \<or> node_at (dynamic_subtree (fst (separateStyles so w))) p = None
            \<or> (node_at (static_subtree (fst (separateStyles so w))) p = Some NestedNode
                \<and> node_at (dynamic_subtree (fst (separateStyles so w))) p = Some NestedNode))"
proof -
  let ?S = "node_at (static_rules (rules so)) p" and ?D = "node_at (dynamic_rules (rules so)) p"
  have "?S = None \<or> ?D = None \<or> (?S = Some NestedNode \<and> ?D = Some NestedNode)"
  proof (cases ?S)
    case None
    then show ?thesis by simp
  next
    case S: (Some n)
    show ?thesis
    proof (cases ?D)
      case None
      then show ?thesis by simp
    next
      case D: (Some m)
      from node_at_static_rules_original [OF assms(1) S]
           node_at_dynamic_rules_original [OF assms(1) D]
      have "m = n" by simp
      moreover from S node_at_static_rules [OF assms(1), of p] have "\<And>f. n \<noteq> ResolverNode f"
        by auto
      moreover from D node_at_dynamic_rules [OF assms(1), of p] have "\<And>s. m \<noteq> LiteralNode s"
        by auto
      ultimately have "n = NestedNode" "m = NestedNode" by (cases n; simp)+
      with S D show ?thesis by simp
    qed
  qed
  then show ?thesis
    by (simp add: static_subtree_separateStyles dynamic_subtree_separateStyles
        node_at_recombine [OF assms])
qed

theorem separateStyles_recombine_witness:
  "distinct_keys [(''b'', Nested [(''color'', Resolver (\<lambda>c. ''red'')), (''width'', Literal ''1px'')]),
                  (''c'', Nested [(''margin'', Literal ''0'')])]
   \<and> no_empty_nested [(''b'', Nested [(''color'', Resolver (\<lambda>c. ''red'')), (''width'', Literal ''1px'')]),
                  (''c'', Nested [(''margin'', Literal ''0'')])]
   \<and> node_at (recombine
        (static_subtree (fst (separateStyles
           \<lparr>oid = 7, rules = [(''b'', Nested [(''color'', Resolver (\<lambda>c. ''red'')), (''width'', Literal ''1px'')]),
                  (''c'', Nested [(''margin'', Literal ''0'')])]\<rparr> initial_world)))
        (dynamic_subtree (fst (separateStyles
           \<lparr>oid = 7, rules = [(''b'', Nested [(''color'', Resolver (\<lambda>c. ''red'')), (''width'', Literal ''1px'')]),
                  (''c'', Nested [(''margin'', Literal ''0'')])]\<rparr> initial_world))))
        [''b'', ''color'']
      = Some (ResolverNode (\<lambda>c. ''red''))"
  using separateStyles_recombine
    [of "\<lparr>oid = 7, rules = [(''b'', Nested [(''color'', Resolver (\<lambda>c. ''red'')), (''width'', Literal ''1px'')]),
                  (''c'', Nested [(''margin'', Literal ''0'')])]\<rparr>" initial_world "[''b'', ''color'']"]
  by simp

text \<open>The tree {a: {}, b: {color: resolver, width: "1px"}}: the union of its subtrees
  has no rule a, and the rule name b is in both subtrees at the root.\<close>

theorem separateStyles_recombine_counterexample:
  "node_at (recombine
      (static_subtree (fst (separateStyles
         \<lparr>oid = 7, rules = [(''a'', Nested []),
              (''b'', Nested [(''color'', Resolver (\<lambda>c. ''red'')), (''width'', Literal ''1px'')])]\<rparr>
         initial_world)))
      (dynamic_subtree (fst (separateStyles
         \<lparr>oid = 7, rules = [(''a'', Nested []),
              (''b'', Nested [(''color'', Resolver (\<lambda>c. ''red'')), (''width'', Literal ''1px'')])]\<rparr>
         initial_world)))) [''a'']
     \<noteq> node_at [(''a'', Nested []),
              (''b'', Nested [(''color'', Resolver (\<lambda>c. ''red'')), (''width'', Literal ''1px'')])] [''a'']
   \<and> node_at (static_subtree (fst (separateStyles
         \<lparr>oid = 7, rules = [(''a'', Nested []),
              (''b'', Nested [(''color'', Resolver (\<lambda>c. ''red'')), (''width'', Literal ''1px'')])]\<rparr>
         initial_world))) [''b''] = Some NestedNode
   \<and> node_at (dynamic_subtree (fst (separateStyles
         \<lparr>oid = 7, rules = [(''a'', Nested []),
              (''b'', Nested [(''color'', Resolver (\<lambda>c. ''red'')), (''width'', Literal ''1px'')])]\<rparr>
         initial_world))) [''b''] = Some NestedNode"
  by (simp add: static_subtree_separateStyles dynamic_subtree_separateStyles)

subsection \<open>Events and hooks in closed form\<close>

lemma trace_emit [simp]: "trace (emit c w) = trace w @ [c]"
  by (simp add: emit_def)

lemma receive_getConfig_once:
  assumes "state i = Some st" and "listeners i = [GetConfig, Update]"
  shows "receive GetConfig detail (w, i) =
           Inr (case dynamicStyleSheet st of
                  Some d \<Rightarrow> emit (UpdateSheet (sheet_id d) (case detail of Some c \<Rightarrow> c | None \<Rightarrow> [])) w
                | None \<Rightarrow> w,
                i\<lparr>config := detail\<rparr>)"
  using assms
  by (simp add: receive_def receive_getConfig_def registered_def onGetConfig_def
      designSystem_def sheet_update_def split: option.splits)

lemma ngOnDestroy_eq:
  assumes "state i = Some st"
  shows "ngOnDestroy (w, i) =
     Inr (w\<lparr>trace := trace w
              @ (case staticStyleSheet st of Some s \<Rightarrow> [ManagerUnmanage (sheet_id s)] | None \<Rightarrow> [])
              @ (case dynamicStyleSheet st of
                   Some d \<Rightarrow> [Detach (sheet_id d), RemoveStyleSheet (sheet_id d)]
                 | None \<Rightarrow> [])
              @ [DispatchEvent DeregisterComponent None]\<rparr>, i)"
  using assms
  by (simp add: ngOnDestroy_def dispatchEvent_def receive_def emit_def
      stylesheetManager_unmanage_def removeStyleSheet_def detach_def split: option.splits)

lemma ngOnInit_new:
  "ngOnInit c (w, new_component) =
     Inr (w\<lparr>trace := trace w
              @ (if has_ngOnInit (base c) then [Super NgOnInit] else [])
              @ [AddEventListener GetConfig, DispatchEvent RegisterComponent None,
                 DispatchEvent GetConfig (Some []), AddEventListener Update]\<rparr>,
          \<lparr>instanceId = None, className = Undefined,
           state = Some \<lparr>dynamicStyleSheet = None, staticStyleSheet = None\<rparr>,
           config = Some [], listeners = [GetConfig, Update]\<rparr>)"
  by (simp add: ngOnInit_def new_component_def super_def addEventListener_def dispatchEvent_def
      receive_def receive_getConfig_def registered_def onGetConfig_def emit_def Let_def)

lemma ngAfterContentInit_no_styles:
  "ngAfterContentInit (w, manageJss None b, i) = Inl TypeError"
  by (simp add: ngAfterContentInit_def separatedStylesInstance_def manageJss_def remember_def
      weakmap_get_def weakmap_set_def truthy_def uuid_def split: prod.splits)

subsection \<open>The cache of separated stylesheets\<close>

lemma separatedStylesInstance_cached:
  assumes "cached c separated"
  shows "separatedStylesInstance (w, c) = Inr ((instance_key c, separated), w, c)"
  using assms
  by (auto simp: cached_def separatedStylesInstance_def remember_def instance_key_def
      split: option.splits)

lemma truthy_uuid_string [simp]: "truthy (Some (uuid_string n))"
  by (simp add: truthy_def uuid_string_def)

lemma separatedStylesInstance_fresh:
  "separatedStylesInstance (w, manageJss (Some so) b) =
     (let w2 = emit UuidV1 (emit UuidV1 (w\<lparr>uuid_calls := Suc (Suc (uuid_calls w))\<rparr>));
          key = uuid_string (Suc (uuid_calls w)) @ uuid_string (uuid_calls w);
          r = separateStyles so w2
      in Inr ((key, fst r), snd r,
              \<lparr>styles = Some so, base = b,
               componentMap = [(Component, uuid_string (Suc (uuid_calls w)))],
               styleMap = [(oid so, uuid_string (uuid_calls w))],
               separatedStyles = [(key, fst r)]\<rparr>))"
  by (simp add: separatedStylesInstance_def manageJss_def remember_def weakmap_get_def
      weakmap_set_def truthy_def uuid_def template_def emit_def Let_def split: prod.splits)

lemma cached_fresh:
  "separatedStylesInstance (w, manageJss (Some so) b) = Inr ((k, separated), w', c')
   \<Longrightarrow> cached c' separated"
  by (auto simp: separatedStylesInstance_fresh Let_def cached_def weakmap_get_def template_def)

lemma separateStyles_trace:
  "trace (snd (separateStyles so w)) =
     trace w @ [GetDynamicStyles (oid so), GetStaticStyles (oid so)]
     @ (if static_rules (rules so) = [] then [] else [CreateStyleSheet (sheets_created w) False])"
  by (simp add: separateStyles_def getStaticStyles_def getDynamicStyles_def isEmptyObject_def
      createStyleSheet_def emit_def Let_def split: list.splits)

lemma separateStyles_counters:
  "objects_created (snd (separateStyles so w)) = Suc (objects_created w)"
  "sheets_created (snd (separateStyles so w)) =
     sheets_created w + (if static_rules (rules so) = [] then 0 else 1)"
  "uuid_calls (snd (separateStyles so w)) = uuid_calls w"
  "generateClassName (snd (separateStyles so w)) = generateClassName w"
  by (simp_all add: separateStyles_def getStaticStyles_def getDynamicStyles_def isEmptyObject_def
      createStyleSheet_def emit_def Let_def split: list.splits)

lemma separateStyles_fields:
  "identity (fst (separateStyles so w)) = objects_created w"
  "dynamicStyles (fst (separateStyles so w)) = getDynamicStyles (rules so)"
  "staticStyles (fst (separateStyles so w)) = getStaticStyles (rules so)"
  "map_option sheet_id (sharedStyleSheet (fst (separateStyles so w))) =
     (if static_rules (rules so) = [] then None else Some (sheets_created w))"
  by (simp_all add: separateStyles_def getStaticStyles_def getDynamicStyles_def isEmptyObject_def
      createStyleSheet_def emit_def Let_def split: list.splits)

lemma createState_trace:
  "trace (snd (createState separated w)) =
     trace w @ (case dynamicStyles separated of
                  Some d \<Rightarrow> [CreateStyleSheet (sheets_created w) True]
                | None \<Rightarrow> [])"
  by (simp add: createState_def createStyleSheet_def emit_def Let_def split: option.splits)

lemma createState_counters:
  "objects_created (snd (createState separated w)) = objects_created w"
  "sheets_created (snd (createState separated w)) =
     sheets_created w + (case dynamicStyles separated of Some d \<Rightarrow> 1 | None \<Rightarrow> 0)"
  "uuid_calls (snd (createState separated w)) = uuid_calls w"
  "generateClassName (snd (createState separated w)) = generateClassName w"
  by (simp_all add: createState_def createStyleSheet_def emit_def Let_def split: option.splits)

lemma createState_fields:
  "staticStyleSheet (fst (createState separated w)) = sharedStyleSheet separated"
  "map_option sheet_id (dynamicStyleSheet (fst (createState separated w))) =
     (case dynamicStyles separated of Some d \<Rightarrow> Some (sheets_created w) | None \<Rightarrow> None)"
  by (simp_all add: createState_def createStyleSheet_def emit_def Let_def split: option.splits)

lemma dynamic_classes_createState:
  "dynamic_classes (fst (createState separated w)) =
     map (\<lambda>k. (k, generateClassName w (sheets_created w) k)) (map fst (dynamic_subtree separated))"
  by (simp add: createState_def createStyleSheet_def dynamic_classes_def dynamic_subtree_def
      Let_def split: option.splits)

lemma map_of_generated_None:
  "map_of (map (\<lambda>k. (k, g k)) ks) x = None \<longleftrightarrow> x \<notin> set ks"
  by (induction ks) auto

text \<open>The class names of a state made from a separated stylesheet can be merged unless
  a top-level dynamic rule is named \<open>hasOwnProperty\<close>: then \<open>getClassNames\<close>, and with
  it \<open>ngAfterContentInit\<close>, raises.\<close>

lemma createState_getClassNames:
  assumes "map_of (dynamic_subtree separated) ''hasOwnProperty'' = None"
  shows "\<exists>cn. getClassNames (fst (createState separated w)) = Inr cn"
proof (rule getClassNames_returns)
  from assms have "''hasOwnProperty'' \<notin> set (map fst (dynamic_subtree separated))"
    by (simp add: map_of_eq_None_iff)
  then show "map_of (dynamic_classes (fst (createState separated w))) ''hasOwnProperty'' = None"
    unfolding dynamic_classes_createState map_of_generated_None .
qed

lemma createState_getClassNames_raises:
  assumes "map_of (dynamic_subtree separated) ''hasOwnProperty'' = Some r"
  shows "getClassNames (fst (createState separated w)) = Inl TypeError"
proof -
  from assms have "''hasOwnProperty'' \<in> set (map fst (dynamic_subtree separated))"
    by (metis map_of_eq_None_iff option.distinct(1) set_map)
  then have "map_of (dynamic_classes (fst (createState separated w))) ''hasOwnProperty'' \<noteq> None"
    unfolding dynamic_classes_createState map_of_generated_None by simp
  then obtain y where
    "map_of (dynamic_classes (fst (createState separated w))) ''hasOwnProperty'' = Some y"
    by blast
  then show ?thesis by (rule getClassNames_raises)
qed

lemma ngAfterContentInit_cached:
  assumes "cached c separated"
    and "map_of (dynamic_subtree separated) ''hasOwnProperty'' = None"
  shows "\<exists>cls. ngAfterContentInit (w, c, i) =
     (let r = createState separated (super (has_ngAfterContentInit (base c)) NgAfterContentInit w)
      in Inr (snd r, c,
              i\<lparr>instanceId := Some (instance_key c), state := Some (fst r), className := cls\<rparr>))"
proof -
  from assms(1) obtain so where so: "styles c = Some so"
    by (auto simp: cached_def split: option.splits)
  define r where
    "r = createState separated (super (has_ngAfterContentInit (base c)) NgAfterContentInit w)"
  from createState_getClassNames [OF assms(2)] obtain cn where
    cn: "getClassNames (fst r) = Inr cn"
    unfolding r_def by blast
  have "ngAfterContentInit (w, c, i) =
      Inr (snd r, c,
           i\<lparr>instanceId := Some (instance_key c), state := Some (fst r),
             className := get_property cn
               (template (case map fst (rules so) of [] \<Rightarrow> None | k # _ \<Rightarrow> Some k))\<rparr>)"
    by (simp add: ngAfterContentInit_def separatedStylesInstance_cached [OF assms(1)]
        r_def [symmetric] case_prod_beta cn first_key_def so)
  then show ?thesis
    unfolding Let_def r_def by (rule exI)
qed

lemma super_simps [simp]:
  "trace (super d h w) = trace w @ (if d then [Super h] else [])"
  "sheets_created (super d h w) = sheets_created w"
  "objects_created (super d h w) = objects_created w"
  "uuid_calls (super d h w) = uuid_calls w"
  "generateClassName (super d h w) = generateClassName w"
  by (simp_all add: super_def emit_def)

lemma ngAfterViewInit_eq:
  "ngAfterViewInit c (w, i) =
     (case state i of
        None \<Rightarrow> Inl TypeError
      | Some st \<Rightarrow>
          Inr (w\<lparr>trace := trace w
                 @ (if has_ngAfterViewInit (base c) then [Super NgAfterViewInit] else [])
                 @ (case staticStyleSheet st of
                      Some s \<Rightarrow> [ManagerAdd (sheet_id s) (sheet_id s), ManagerManage (sheet_id s)]
                    | None \<Rightarrow> [])
                 @ (case dynamicStyleSheet st of
                      Some d \<Rightarrow> [Attach (sheet_id d), UpdateSheet (sheet_id d) (designSystem i)]
                    | None \<Rightarrow> [])\<rparr>, i))"
  by (simp add: ngAfterViewInit_def super_def emit_def stylesheetManager_add_def
      stylesheetManager_manage_def attach_def sheet_update_def Let_def split: option.splits)

lemma getDynamicStyles_eq_None [simp]:
  "getDynamicStyles t = None \<longleftrightarrow> dynamic_rules t = []"
  by (simp add: getDynamicStyles_def split: list.splits)

lemma getDynamicStyles_eq_Some [simp]:
  "getDynamicStyles t = Some x \<longleftrightarrow> x = dynamic_rules t \<and> dynamic_rules t \<noteq> []"
  by (auto simp: getDynamicStyles_def split: list.splits)

lemma dynamic_subtree_separateStyles_rules:
  "dynamic_subtree (fst (separateStyles so w)) = dynamic_rules (rules so)"
  by (cases "dynamic_rules (rules so)")
     (simp_all add: dynamic_subtree_def separateStyles_fields getDynamicStyles_def)

lemma ngAfterContentInit_fresh:
  assumes "map_of (dynamic_rules (rules so)) ''hasOwnProperty'' = None"
  shows "\<exists>cls. ngAfterContentInit (w, manageJss (Some so) b, i) =
     (let w0 = super (has_ngAfterContentInit b) NgAfterContentInit w;
          w2 = emit UuidV1 (emit UuidV1 (w0\<lparr>uuid_calls := Suc (Suc (uuid_calls w0))\<rparr>));
          key = uuid_string (Suc (uuid_calls w0)) @ uuid_string (uuid_calls w0);
          r = separateStyles so w2;
          cs = createState (fst r) (snd r)
      in Inr (snd cs,
              \<lparr>styles = Some so, base = b,
               componentMap = [(Component, uuid_string (Suc (uuid_calls w0)))],
               styleMap = [(oid so, uuid_string (uuid_calls w0))],
               separatedStyles = [(key, fst r)]\<rparr>,
              i\<lparr>instanceId := Some key, state := Some (fst cs), className := cls\<rparr>))"
proof -
  have b: "base (manageJss (Some so) b) = b" by (simp add: manageJss_def)
  define w0 where "w0 = super (has_ngAfterContentInit b) NgAfterContentInit w"
  define w2 where "w2 = emit UuidV1 (emit UuidV1 (w0\<lparr>uuid_calls := Suc (Suc (uuid_calls w0))\<rparr>))"
  define key where "key = uuid_string (Suc (uuid_calls w0)) @ uuid_string (uuid_calls w0)"
  define r where "r = separateStyles so w2"
  define cs where "cs = createState (fst r) (snd r)"
  define c' where "c' = \<lparr>styles = Some so, base = b,
               componentMap = [(Component, uuid_string (Suc (uuid_calls w0)))],
               styleMap = [(oid so, uuid_string (uuid_calls w0))],
               separatedStyles = [(key, fst r)]\<rparr>"
  have sep: "separatedStylesInstance (w0, manageJss (Some so) b) = Inr ((key, fst r), snd r, c')"
    unfolding separatedStylesInstance_fresh Let_def c'_def r_def key_def w2_def
    by (rule refl)
  have "map_of (dynamic_subtree (fst r)) ''hasOwnProperty'' = None"
    by (simp add: r_def dynamic_subtree_separateStyles_rules assms)
  from createState_getClassNames [OF this] obtain cn where
    cn: "getClassNames (fst cs) = Inr cn"
    unfolding cs_def by blast
  have s: "styles c' = Some so" by (simp add: c'_def)
  have "ngAfterContentInit (w, manageJss (Some so) b, i) =
      Inr (snd cs, c',
           i\<lparr>instanceId := Some key, state := Some (fst cs),
             className := get_property cn
               (template (case map fst (rules so) of [] \<Rightarrow> None | k # _ \<Rightarrow> Some k))\<rparr>)"
    by (simp add: ngAfterContentInit_def b w0_def [symmetric] sep cs_def [symmetric]
        case_prod_beta cn first_key_def s)
  then show ?thesis
    unfolding Let_def c'_def cs_def r_def key_def w2_def w0_def by (rule exI)
qed

text \<open>With a top-level dynamic rule named \<open>hasOwnProperty\<close>, \<open>ngAfterContentInit\<close> raises
  at line 191, in the call of \<open>getClassNames\<close>.\<close>

lemma ngAfterContentInit_hasOwnProperty_rule:
  assumes "map_of (dynamic_rules (rules so)) ''hasOwnProperty'' = Some r"
  shows "ngAfterContentInit (w, manageJss (Some so) b, i) = Inl TypeError"
proof -
  have b: "base (manageJss (Some so) b) = b" by (simp add: manageJss_def)
  define w0 where "w0 = super (has_ngAfterContentInit b) NgAfterContentInit w"
  define w2 where "w2 = emit UuidV1 (emit UuidV1 (w0\<lparr>uuid_calls := Suc (Suc (uuid_calls w0))\<rparr>))"
  define key where "key = uuid_string (Suc (uuid_calls w0)) @ uuid_string (uuid_calls w0)"
  define sw where "sw = separateStyles so w2"
  define cs where "cs = createState (fst sw) (snd sw)"
  define c' where "c' = \<lparr>styles = Some so, base = b,
               componentMap = [(Component, uuid_string (Suc (uuid_calls w0)))],
               styleMap = [(oid so, uuid_string (uuid_calls w0))],
               separatedStyles = [(key, fst sw)]\<rparr>"
  have sep: "separatedStylesInstance (w0, manageJss (Some so) b) = Inr ((key, fst sw), snd sw, c')"
    unfolding separatedStylesInstance_fresh Let_def c'_def sw_def key_def w2_def
    by (rule refl)
  have "map_of (dynamic_subtree (fst sw)) ''hasOwnProperty'' = Some r"
    by (simp add: sw_def dynamic_subtree_separateStyles_rules assms)
  from createState_getClassNames_raises [OF this]
  have cn: "getClassNames (fst cs) = Inl TypeError"
    unfolding cs_def .
  show ?thesis
    by (simp add: ngAfterContentInit_def b w0_def [symmetric] sep cs_def [symmetric]
        case_prod_beta cn)
qed

lemma cached_after_fresh:
  "cached \<lparr>styles = Some so, base = b, componentMap = [(Component, uuid_string m)],
           styleMap = [(oid so, uuid_string n)],
           separatedStyles = [(uuid_string m @ uuid_string n, separated)]\<rparr> separated"
  by (simp add: cached_def weakmap_get_def template_def)

lemma mount_cached:
  assumes "cached c separated"
    and "map_of (dynamic_subtree separated) ''hasOwnProperty'' = None"
  shows "\<exists>w' i' st.
           mount (w, c) = Inr (w', c, i') \<and> state i' = Some st
         \<and> st = fst (createState separated (w\<lparr>trace := trace w @ init_calls c\<rparr>))
         \<and> listeners i' = [GetConfig, Update]
         \<and> trace w' = trace w @ init_calls c
              @ (case dynamicStyles separated of
                   Some d \<Rightarrow> [CreateStyleSheet (sheets_created w) True]
                 | None \<Rightarrow> [])
              @ view_calls c st
         \<and> sheets_created w' =
              sheets_created w + (case dynamicStyles separated of Some d \<Rightarrow> 1 | None \<Rightarrow> 0)
         \<and> objects_created w' = objects_created w
         \<and> uuid_calls w' = uuid_calls w
         \<and> generateClassName w' = generateClassName w"
proof -
  define w1 where "w1 = w\<lparr>trace := trace w
      @ (if has_ngOnInit (base c) then [Super NgOnInit] else [])
      @ [AddEventListener GetConfig, DispatchEvent RegisterComponent None,
         DispatchEvent GetConfig (Some []), AddEventListener Update]\<rparr>"
  define i1 where "i1 = \<lparr>instanceId = None, className = Undefined,
      state = Some \<lparr>dynamicStyleSheet = None, staticStyleSheet = None\<rparr>,
      config = Some [], listeners = [GetConfig, Update]\<rparr>"
  have init: "ngOnInit c (w, new_component) = Inr (w1, i1)"
    by (simp add: ngOnInit_new w1_def i1_def)
  define r where
    "r = createState separated (super (has_ngAfterContentInit (base c)) NgAfterContentInit w1)"
  from ngAfterContentInit_cached [OF assms, of w1 i1] obtain cls where
    content: "ngAfterContentInit (w1, c, i1) =
       Inr (snd r, c, i1\<lparr>instanceId := Some (instance_key c), state := Some (fst r),
                         className := cls\<rparr>)"
    unfolding Let_def r_def by blast
  define i2 where "i2 = i1\<lparr>instanceId := Some (instance_key c), state := Some (fst r),
                         className := cls\<rparr>"
  have st: "state i2 = Some (fst r)" and ls: "listeners i2 = [GetConfig, Update]"
    and ds: "designSystem i2 = []"
    by (simp_all add: i2_def i1_def designSystem_def)
  define w3 where "w3 = (snd r)\<lparr>trace := trace (snd r) @ view_calls c (fst r)\<rparr>"
  have view: "ngAfterViewInit c (snd r, i2) = Inr (w3, i2)"
    by (simp add: ngAfterViewInit_eq st ds w3_def view_calls_def cong: option.case_cong)
  have m: "mount (w, c) = Inr (w3, c, i2)"
    by (simp add: mount_def init content view i2_def [symmetric])
  have same: "fst r = fst (createState separated (w\<lparr>trace := trace w @ init_calls c\<rparr>))"
    by (simp add: r_def createState_def createStyleSheet_def w1_def Let_def super_def emit_def
        split: option.splits)
  have t: "trace w3 = trace w @ init_calls c
              @ (case dynamicStyles separated of
                   Some d \<Rightarrow> [CreateStyleSheet (sheets_created w) True]
                 | None \<Rightarrow> [])
              @ view_calls c (fst r)"
    by (simp add: w3_def r_def createState_trace w1_def init_calls_def split: option.splits)
  have n: "sheets_created w3 =
              sheets_created w + (case dynamicStyles separated of Some d \<Rightarrow> 1 | None \<Rightarrow> 0)"
    "objects_created w3 = objects_created w"
    "uuid_calls w3 = uuid_calls w"
    "generateClassName w3 = generateClassName w"
    by (simp_all add: w3_def r_def createState_counters w1_def)
  show ?thesis
    apply (rule exI [of _ w3], rule exI [of _ i2], rule exI [of _ "fst r"])
    using m st same ls t n by simp
qed

lemma mount_fresh:
  assumes "map_of (dynamic_rules (rules so)) ''hasOwnProperty'' = None"
  shows "\<exists>w' c' i' st separated k.
       mount (w, manageJss (Some so) b) = Inr (w', c', i') \<and> state i' = Some st
     \<and> cached c' separated \<and> separatedStyles c' = [(k, separated)]
     \<and> k = uuid_string (Suc (uuid_calls w)) @ uuid_string (uuid_calls w)
     \<and> componentMap c' = [(Component, uuid_string (Suc (uuid_calls w)))]
     \<and> styleMap c' = [(oid so, uuid_string (uuid_calls w))]
     \<and> identity separated = objects_created w
     \<and> dynamicStyles separated = getDynamicStyles (rules so)
     \<and> map_option sheet_id (sharedStyleSheet separated) =
          (if static_rules (rules so) = [] then None else Some (sheets_created w))
     \<and> styles c' = Some so \<and> base c' = b
     \<and> listeners i' = [GetConfig, Update]
     \<and> staticStyleSheet st = sharedStyleSheet separated
     \<and> map_option sheet_id (dynamicStyleSheet st) =
          (if dynamic_rules (rules so) = [] then None
           else Some (sheets_created w + (if static_rules (rules so) = [] then 0 else 1)))
     \<and> trace w' = trace w @ init_calls c'
          @ [UuidV1, UuidV1, GetDynamicStyles (oid so), GetStaticStyles (oid so)]
          @ (if static_rules (rules so) = [] then []
             else [CreateStyleSheet (sheets_created w) False])
          @ (if dynamic_rules (rules so) = [] then []
             else [CreateStyleSheet
                     (sheets_created w + (if static_rules (rules so) = [] then 0 else 1)) True])
          @ view_calls c' st
     \<and> sheets_created w' =
          sheets_created w + (if static_rules (rules so) = [] then 0 else 1)
          + (if dynamic_rules (rules so) = [] then 0 else 1)
     \<and> objects_created w' = Suc (objects_created w)
     \<and> uuid_calls w' = Suc (Suc (uuid_calls w))
     \<and> generateClassName w' = generateClassName w"
proof -
  let ?c0 = "manageJss (Some so) b"
  have b: "base ?c0 = b" by (simp add: manageJss_def)
  define w1 where "w1 = w\<lparr>trace := trace w
      @ (if has_ngOnInit b then [Super NgOnInit] else [])
      @ [AddEventListener GetConfig, DispatchEvent RegisterComponent None,
         DispatchEvent GetConfig (Some []), AddEventListener Update]\<rparr>"
  define i1 where "i1 = \<lparr>instanceId = None, className = Undefined,
      state = Some \<lparr>dynamicStyleSheet = None, staticStyleSheet = None\<rparr>,
      config = Some [], listeners = [GetConfig, Update]\<rparr>"
  have init: "ngOnInit ?c0 (w, new_component) = Inr (w1, i1)"
    by (simp add: ngOnInit_new w1_def i1_def b)
  define w0 where "w0 = super (has_ngAfterContentInit b) NgAfterContentInit w1"
  define w2 where "w2 = emit UuidV1 (emit UuidV1 (w0\<lparr>uuid_calls := Suc (Suc (uuid_calls w0))\<rparr>))"
  define r where "r = separateStyles so w2"
  define cs where "cs = createState (fst r) (snd r)"
  define k where "k = uuid_string (Suc (uuid_calls w0)) @ uuid_string (uuid_calls w0)"
  define c' where "c' = \<lparr>styles = Some so, base = b,
      componentMap = [(Component, uuid_string (Suc (uuid_calls w0)))],
      styleMap = [(oid so, uuid_string (uuid_calls w0))],
      separatedStyles = [(k, fst r)]\<rparr>"
  from ngAfterContentInit_fresh [OF assms, of w1 b i1] obtain cls where
    content: "ngAfterContentInit (w1, ?c0, i1) =
       Inr (snd cs, c', i1\<lparr>instanceId := Some k, state := Some (fst cs), className := cls\<rparr>)"
    unfolding Let_def c'_def k_def cs_def r_def w2_def w0_def by blast
  define i2 where "i2 = i1\<lparr>instanceId := Some k, state := Some (fst cs), className := cls\<rparr>"
  have st: "state i2 = Some (fst cs)" and ls: "listeners i2 = [GetConfig, Update]"
    and ds: "designSystem i2 = []"
    by (simp_all add: i2_def i1_def designSystem_def)
  define w3 where "w3 = (snd cs)\<lparr>trace := trace (snd cs) @ view_calls c' (fst cs)\<rparr>"
  have cb: "base c' = b" by (simp add: c'_def)
  have view: "ngAfterViewInit c' (snd cs, i2) = Inr (w3, i2)"
    by (simp add: ngAfterViewInit_eq st ds w3_def view_calls_def cb cong: option.case_cong)
  have m: "mount (w, ?c0) = Inr (w3, c', i2)"
    by (simp add: mount_def init content view i2_def [symmetric])
  have c: "cached c' (fst r)"
    unfolding c'_def k_def by (rule cached_after_fresh)
  have u0: "uuid_calls w0 = uuid_calls w"
    by (simp add: w0_def w1_def)
  have w2_facts: "trace w2 = trace w @ init_calls c' @ [UuidV1, UuidV1]"
    "sheets_created w2 = sheets_created w" "objects_created w2 = objects_created w"
    "uuid_calls w2 = Suc (Suc (uuid_calls w))" "generateClassName w2 = generateClassName w"
    by (simp_all add: w2_def w0_def w1_def emit_def init_calls_def cb)
  have dyn: "dynamicStyles (fst r) = getDynamicStyles (rules so)"
    by (simp add: r_def separateStyles_fields)
  have t: "trace w3 = trace w @ init_calls c'
          @ [UuidV1, UuidV1, GetDynamicStyles (oid so), GetStaticStyles (oid so)]
          @ (if static_rules (rules so) = [] then []
             else [CreateStyleSheet (sheets_created w) False])
          @ (if dynamic_rules (rules so) = [] then []
             else [CreateStyleSheet
                     (sheets_created w + (if static_rules (rules so) = [] then 0 else 1)) True])
          @ view_calls c' (fst cs)"
    by (simp add: w3_def cs_def createState_trace r_def separateStyles_fields separateStyles_trace
        separateStyles_counters w2_facts split: option.splits)
  have n: "sheets_created w3 =
          sheets_created w + (if static_rules (rules so) = [] then 0 else 1)
          + (if dynamic_rules (rules so) = [] then 0 else 1)"
    "objects_created w3 = Suc (objects_created w)"
    "uuid_calls w3 = Suc (Suc (uuid_calls w))"
    "generateClassName w3 = generateClassName w"
    by (simp_all add: w3_def cs_def createState_counters r_def separateStyles_fields separateStyles_counters
        w2_facts split: option.splits)
  have f: "identity (fst r) = objects_created w"
    "map_option sheet_id (sharedStyleSheet (fst r)) =
          (if static_rules (rules so) = [] then None else Some (sheets_created w))"
    "staticStyleSheet (fst cs) = sharedStyleSheet (fst r)"
    "map_option sheet_id (dynamicStyleSheet (fst cs)) =
          (if dynamic_rules (rules so) = [] then None
           else Some (sheets_created w + (if static_rules (rules so) = [] then 0 else 1)))"
    by (simp_all add: cs_def createState_fields r_def separateStyles_fields
        separateStyles_counters w2_facts split: option.splits)
  have sc: "separatedStyles c' = [(k, fst r)]" "styles c' = Some so"
    "k = uuid_string (Suc (uuid_calls w)) @ uuid_string (uuid_calls w)"
    "componentMap c' = [(Component, uuid_string (Suc (uuid_calls w)))]"
    "styleMap c' = [(oid so, uuid_string (uuid_calls w))]"
    by (simp_all add: c'_def k_def u0)
  from m st c sc cb ls t n f dyn show ?thesis
    by blast
qed

text \<open>Mounting an instance of a class whose style object has a top-level dynamic rule
  named \<open>hasOwnProperty\<close> raises.\<close>

lemma mount_hasOwnProperty_rule:
  assumes "map_of (dynamic_rules (rules so)) ''hasOwnProperty'' = Some r"
  shows "mount (w, manageJss (Some so) b) = Inl TypeError"
  by (simp add: mount_def ngOnInit_new ngAfterContentInit_hasOwnProperty_rule [OF assms])

subsection \<open>Counting calls\<close>

lemma count_calls_trace:
  "trace w' = trace w @ tr \<Longrightarrow> count_calls P w' = count_calls P w + length (filter P tr)"
  by (simp add: count_calls_def)

lemma count_calls_initial_world [simp]: "count_calls P initial_world = 0"
  by (simp add: count_calls_def initial_world_def)

lemma filter_init_calls [simp]:
  "filter is_extraction (init_calls c) = []"
  "filter is_classification (init_calls c) = []"
  "filter is_static_compilation (init_calls c) = []"
  "filter is_dynamic_handle (init_calls c) = []"
  "filter is_registration (init_calls c) = []"
  by (simp_all add: init_calls_def)

lemma filter_view_calls [simp]:
  "filter is_extraction (view_calls c st) = []"
  "filter is_classification (view_calls c st) = []"
  "filter is_static_compilation (view_calls c st) = []"
  "filter is_dynamic_handle (view_calls c st) = []"
  "length (filter is_registration (view_calls c st)) =
     (case staticStyleSheet st of Some s \<Rightarrow> 1 | None \<Rightarrow> 0)"
  by (simp_all add: view_calls_def split: option.splits)

lemma mount_cached_counts:
  assumes "cached c separated"
    and "map_of (dynamic_subtree separated) ''hasOwnProperty'' = None"
  shows "\<exists>w' i'.
           mount (w, c) = Inr (w', c, i')
         \<and> map_option staticStyleSheet (state i') = Some (sharedStyleSheet separated)
         \<and> count_calls is_extraction w' = count_calls is_extraction w
         \<and> count_calls is_classification w' = count_calls is_classification w
         \<and> count_calls is_static_compilation w' = count_calls is_static_compilation w"
proof -
  from mount_cached [OF assms, of w] obtain w' i' st where
    m: "mount (w, c) = Inr (w', c, i')" and st: "state i' = Some st"
    and s: "st = fst (createState separated (w\<lparr>trace := trace w @ init_calls c\<rparr>))"
    and t: "trace w' = trace w @ (init_calls c
              @ (case dynamicStyles separated of
                   Some d \<Rightarrow> [CreateStyleSheet (sheets_created w) True]
                 | None \<Rightarrow> [])
              @ view_calls c st)"
    by auto
  have "map_option staticStyleSheet (state i') = Some (sharedStyleSheet separated)"
    by (simp add: st s createState_fields)
  moreover note m count_calls_trace [OF t, of is_extraction]
    count_calls_trace [OF t, of is_classification]
    count_calls_trace [OF t, of is_static_compilation]
  ultimately show ?thesis
    by (auto split: option.splits)
qed

lemma mount_times_cached:
  assumes "cached c separated"
    and "map_of (dynamic_subtree separated) ''hasOwnProperty'' = None"
  shows "\<exists>w' is.
           mount_times n (w, c) = Inr (w', c, is) \<and> length is = n
         \<and> list_all (\<lambda>i. map_option staticStyleSheet (state i) = Some (sharedStyleSheet separated)) is
         \<and> count_calls is_extraction w' = count_calls is_extraction w
         \<and> count_calls is_classification w' = count_calls is_classification w
         \<and> count_calls is_static_compilation w' = count_calls is_static_compilation w"
proof (induction n arbitrary: w)
  case 0
  then show ?case by simp
next
  case (Suc n)
  from mount_cached_counts [OF assms, of w] obtain w1 i1 where
    m: "mount (w, c) = Inr (w1, c, i1)"
    and s: "map_option staticStyleSheet (state i1) = Some (sharedStyleSheet separated)"
    and c1: "count_calls is_extraction w1 = count_calls is_extraction w"
      "count_calls is_classification w1 = count_calls is_classification w"
      "count_calls is_static_compilation w1 = count_calls is_static_compilation w"
    by auto
  from Suc.IH [of w1] obtain w2 "is" where
    r: "mount_times n (w1, c) = Inr (w2, c, is)" and l: "length is = n"
    and a: "list_all (\<lambda>i. map_option staticStyleSheet (state i) = Some (sharedStyleSheet separated)) is"
    and c2: "count_calls is_extraction w2 = count_calls is_extraction w1"
      "count_calls is_classification w2 = count_calls is_classification w1"
      "count_calls is_static_compilation w2 = count_calls is_static_compilation w1"
    by auto
  have "mount_times (Suc n) (w, c) = Inr (w2, c, i1 # is)"
    by (simp add: m r)
  with l a s c1 c2 show ?case by simp
qed


lemma cached_key:
  assumes "cached c separated" and "separatedStyles c = [(k, separated')]"
  shows "instance_key c = k \<and> separated' = separated"
  using assms
  by (auto simp: cached_def instance_key_def split: option.splits if_splits)

lemma dynamic_subtree_eq:
  "dynamicStyles separated = getDynamicStyles t \<Longrightarrow> dynamic_subtree separated = dynamic_rules t"
  by (cases "dynamic_rules t") (simp_all add: dynamic_subtree_def getDynamicStyles_def)

lemma button_styles_rules [simp]:
  "static_rules (rules button_styles) \<noteq> []" "dynamic_rules (rules button_styles) \<noteq> []"
  "map_of (dynamic_rules (rules button_styles)) ''hasOwnProperty'' = None"
  by (simp_all add: button_styles_def)

lemma calls_after_Inr: "calls_after P (Inr (w, x)) = Some (count_calls P w)"
  by (simp add: calls_after_def)

text \<open>
  C2, as amended. For every base component and every style object none of whose top-level
  dynamic rules is named \<open>hasOwnProperty\<close>, mounting the first instance of the class that
  one call of \<open>manageJss(styles)(BaseComponent)\<close> makes of them runs one extraction of the
  dynamic rule tree (two classification calls) and at most one static compilation, and
  stores one separated stylesheet. From then on, in every world, the lookup of lines 160
  to 166 in that class returns that very object and calls nothing, and mounting any number
  of further instances of that class adds no extraction, no classification call and no
  static compilation, every instance holding the static handle of the stored object. The
  cache belongs to the class, not to the pair: a second call of \<open>manageJss\<close> with the same
  pair makes a class with an empty cache.
\<close>

theorem separatedStyles_cached_per_class:
  assumes "map_of (dynamic_rules (rules so)) ''hasOwnProperty'' = None"
  shows "\<exists>w1 c1 i1 k separated.
       mount (w, manageJss (Some so) b) = Inr (w1, c1, i1)
     \<and> count_calls is_extraction w1 = count_calls is_extraction w + 1
     \<and> count_calls is_classification w1 = count_calls is_classification w + 2
     \<and> count_calls is_static_compilation w1 \<le> count_calls is_static_compilation w + 1
     \<and> separatedStyles c1 = [(k, separated)]
     \<and> map_option staticStyleSheet (state i1) = Some (sharedStyleSheet separated)
     \<and> (\<forall>w2. separatedStylesInstance (w2, c1) = Inr ((k, separated), w2, c1))
     \<and> (\<forall>w2 n. \<exists>w3 is.
            mount_times n (w2, c1) = Inr (w3, c1, is) \<and> length is = n
          \<and> list_all (\<lambda>i. map_option staticStyleSheet (state i) = Some (sharedStyleSheet separated)) is
          \<and> count_calls is_extraction w3 = count_calls is_extraction w2
          \<and> count_calls is_classification w3 = count_calls is_classification w2
          \<and> count_calls is_static_compilation w3 = count_calls is_static_compilation w2)"
proof -
  from mount_fresh [OF assms, of w b] obtain w1 c1 i1 st separated k where
    m: "mount (w, manageJss (Some so) b) = Inr (w1, c1, i1)" and st: "state i1 = Some st"
    and c: "cached c1 separated" and s: "separatedStyles c1 = [(k, separated)]"
    and d: "dynamicStyles separated = getDynamicStyles (rules so)"
    and ss: "staticStyleSheet st = sharedStyleSheet separated"
    and t: "trace w1 = trace w @ (init_calls c1
          @ [UuidV1, UuidV1, GetDynamicStyles (oid so), GetStaticStyles (oid so)]
          @ (if static_rules (rules so) = [] then []
             else [CreateStyleSheet (sheets_created w) False])
          @ (if dynamic_rules (rules so) = [] then []
             else [CreateStyleSheet
                     (sheets_created w + (if static_rules (rules so) = [] then 0 else 1)) True])
          @ view_calls c1 st)"
    by (elim exE conjE) simp
  have h: "map_of (dynamic_subtree separated) ''hasOwnProperty'' = None"
    by (simp add: dynamic_subtree_eq [OF d] assms)
  have k: "instance_key c1 = k" using cached_key [OF c s] by simp
  have a: "count_calls is_extraction w1 = count_calls is_extraction w + 1"
    "count_calls is_classification w1 = count_calls is_classification w + 2"
    "count_calls is_static_compilation w1 \<le> count_calls is_static_compilation w + 1"
    by (simp_all add: count_calls_trace [OF t])
  have b: "\<forall>w2. separatedStylesInstance (w2, c1) = Inr ((k, separated), w2, c1)"
    using separatedStylesInstance_cached [OF c] k by simp
  have "map_option staticStyleSheet (state i1) = Some (sharedStyleSheet separated)"
    by (simp add: st ss)
  with m a s b mount_times_cached [OF c h] show ?thesis
    by blast
qed

text \<open>With the button styles: one extraction after the first mount, and still one after
  any number of further mounts.\<close>

theorem separatedStyles_cached_per_class_witness:
  "map_of (dynamic_rules (rules button_styles)) ''hasOwnProperty'' = None
   \<and> (\<exists>w1 c1 i1.
      mount (initial_world, manageJss (Some button_styles) component_A) = Inr (w1, c1, i1)
    \<and> count_calls is_extraction w1 = 1
    \<and> (\<forall>n. calls_after is_extraction (mount_times n (w1, c1)) = Some 1))"
proof -
  from separatedStyles_cached_per_class [OF button_styles_rules(3), of initial_world component_A]
  obtain w1 c1 i1 where
    m: "mount (initial_world, manageJss (Some button_styles) component_A) = Inr (w1, c1, i1)"
    and c: "count_calls is_extraction w1 = count_calls is_extraction initial_world + 1"
    and r: "\<forall>w2 n. \<exists>w3 is.
            mount_times n (w2, c1) = Inr (w3, c1, is) \<and> length is = n
          \<and> list_all (\<lambda>i. map_option staticStyleSheet (state i)
                           = map_option staticStyleSheet (state i1)) is
          \<and> count_calls is_extraction w3 = count_calls is_extraction w2
          \<and> count_calls is_classification w3 = count_calls is_classification w2
          \<and> count_calls is_static_compilation w3 = count_calls is_static_compilation w2"
    by (elim exE conjE) simp
  have "calls_after is_extraction (mount_times n (w1, c1)) = Some 1" for n
  proof -
    from r obtain w3 "is" where "mount_times n (w1, c1) = Inr (w3, c1, is)"
      "count_calls is_extraction w3 = count_calls is_extraction w1"
      by blast
    with c show ?thesis by (simp add: calls_after_def)
  qed
  with m c show ?thesis by simp
qed

subsection \<open>Mounting instances of new classes\<close>

lemma mount_fresh_counts:
  assumes "map_of (dynamic_rules (rules so)) ''hasOwnProperty'' = None"
  shows "\<exists>w' c' i' st separated k.
       mount (w, manageJss (Some so) b) = Inr (w', c', i') \<and> state i' = Some st
     \<and> separatedStyles c' = [(k, separated)]
     \<and> k = uuid_string (Suc (uuid_calls w)) @ uuid_string (uuid_calls w)
     \<and> componentMap c' = [(Component, uuid_string (Suc (uuid_calls w)))]
     \<and> styleMap c' = [(oid so, uuid_string (uuid_calls w))]
     \<and> cached c' separated
     \<and> identity separated = objects_created w
     \<and> map_option sheet_id (staticStyleSheet st) =
          (if static_rules (rules so) = [] then None else Some (sheets_created w))
     \<and> map_option sheet_id (dynamicStyleSheet st) =
          (if dynamic_rules (rules so) = [] then None
           else Some (sheets_created w + (if static_rules (rules so) = [] then 0 else 1)))
     \<and> sheets_created w' =
          sheets_created w + (if static_rules (rules so) = [] then 0 else 1)
          + (if dynamic_rules (rules so) = [] then 0 else 1)
     \<and> objects_created w' = Suc (objects_created w)
     \<and> uuid_calls w' = Suc (Suc (uuid_calls w))
     \<and> count_calls is_extraction w' = count_calls is_extraction w + 1
     \<and> count_calls is_classification w' = count_calls is_classification w + 2
     \<and> count_calls is_static_compilation w' =
          count_calls is_static_compilation w + (if static_rules (rules so) = [] then 0 else 1)
     \<and> count_calls is_dynamic_handle w' =
          count_calls is_dynamic_handle w + (if dynamic_rules (rules so) = [] then 0 else 1)
     \<and> count_calls is_registration w' =
          count_calls is_registration w + (if static_rules (rules so) = [] then 0 else 1)"
proof -
  from mount_fresh [OF assms, of w b] obtain w' c' i' st separated k where
    m: "mount (w, manageJss (Some so) b) = Inr (w', c', i')" and st: "state i' = Some st"
    and s: "separatedStyles c' = [(k, separated)]"
      "k = uuid_string (Suc (uuid_calls w)) @ uuid_string (uuid_calls w)"
      "componentMap c' = [(Component, uuid_string (Suc (uuid_calls w)))]"
      "styleMap c' = [(oid so, uuid_string (uuid_calls w))]"
      "cached c' separated"
    and i: "identity separated = objects_created w"
    and sh: "map_option sheet_id (sharedStyleSheet separated) =
          (if static_rules (rules so) = [] then None else Some (sheets_created w))"
    and ss: "staticStyleSheet st = sharedStyleSheet separated"
    and ds: "map_option sheet_id (dynamicStyleSheet st) =
          (if dynamic_rules (rules so) = [] then None
           else Some (sheets_created w + (if static_rules (rules so) = [] then 0 else 1)))"
    and t: "trace w' = trace w @ (init_calls c'
          @ [UuidV1, UuidV1, GetDynamicStyles (oid so), GetStaticStyles (oid so)]
          @ (if static_rules (rules so) = [] then []
             else [CreateStyleSheet (sheets_created w) False])
          @ (if dynamic_rules (rules so) = [] then []
             else [CreateStyleSheet
                     (sheets_created w + (if static_rules (rules so) = [] then 0 else 1)) True])
          @ view_calls c' st)"
    and n: "sheets_created w' =
          sheets_created w + (if static_rules (rules so) = [] then 0 else 1)
          + (if dynamic_rules (rules so) = [] then 0 else 1)"
       "objects_created w' = Suc (objects_created w)"
       "uuid_calls w' = Suc (Suc (uuid_calls w))"
    by (elim exE conjE) simp
  have reg: "(case staticStyleSheet st of Some s \<Rightarrow> 1 | None \<Rightarrow> 0)
               = (if static_rules (rules so) = [] then 0 else (1::nat))"
    using sh ss by (auto split: option.splits if_splits)
  have c: "count_calls is_extraction w' = count_calls is_extraction w + 1"
    "count_calls is_classification w' = count_calls is_classification w + 2"
    "count_calls is_static_compilation w' =
          count_calls is_static_compilation w + (if static_rules (rules so) = [] then 0 else 1)"
    "count_calls is_dynamic_handle w' =
          count_calls is_dynamic_handle w + (if dynamic_rules (rules so) = [] then 0 else 1)"
    "count_calls is_registration w' =
          count_calls is_registration w + (if static_rules (rules so) = [] then 0 else 1)"
    by (simp_all add: count_calls_trace [OF t] reg)
  from sh ss have s1: "map_option sheet_id (staticStyleSheet st) =
          (if static_rules (rules so) = [] then None else Some (sheets_created w))"
    by simp
  show ?thesis
    apply (rule exI [of _ w'], rule exI [of _ c'], rule exI [of _ i'], rule exI [of _ st],
        rule exI [of _ separated], rule exI [of _ k])
    using m st s i ds n c s1 by simp
qed

lemma mount_two_fresh:
  assumes "map_of (dynamic_rules (rules so1)) ''hasOwnProperty'' = None"
    and "map_of (dynamic_rules (rules so2)) ''hasOwnProperty'' = None"
  shows "\<exists>w2 cA iA cB iB stA stB kA kB sepA sepB.
       mount_two (manageJss (Some so1) a) (manageJss (Some so2) b) w
         = Inr (w2, (cA, iA), (cB, iB))
     \<and> state iA = Some stA \<and> state iB = Some stB
     \<and> separatedStyles cA = [(kA, sepA)] \<and> separatedStyles cB = [(kB, sepB)]
     \<and> kA = uuid_string (Suc (uuid_calls w)) @ uuid_string (uuid_calls w)
     \<and> kB = uuid_string (Suc (Suc (Suc (uuid_calls w)))) @ uuid_string (Suc (Suc (uuid_calls w)))
     \<and> componentMap cA = [(Component, uuid_string (Suc (uuid_calls w)))]
     \<and> styleMap cA = [(oid so1, uuid_string (uuid_calls w))]
     \<and> cached cA sepA
     \<and> uuid_calls w2 = Suc (Suc (Suc (Suc (uuid_calls w))))
     \<and> objects_created w2 = Suc (Suc (objects_created w))
     \<and> identity sepA = objects_created w \<and> identity sepB = Suc (objects_created w)
     \<and> map_option sheet_id (staticStyleSheet stA) =
          (if static_rules (rules so1) = [] then None else Some (sheets_created w))
     \<and> map_option sheet_id (dynamicStyleSheet stA) =
          (if dynamic_rules (rules so1) = [] then None
           else Some (sheets_created w + (if static_rules (rules so1) = [] then 0 else 1)))
     \<and> map_option sheet_id (staticStyleSheet stB) =
          (if static_rules (rules so2) = [] then None
           else Some (sheets_created w + (if static_rules (rules so1) = [] then 0 else 1)
                      + (if dynamic_rules (rules so1) = [] then 0 else 1)))
     \<and> map_option sheet_id (dynamicStyleSheet stB) =
          (if dynamic_rules (rules so2) = [] then None
           else Some (sheets_created w + (if static_rules (rules so1) = [] then 0 else 1)
                      + (if dynamic_rules (rules so1) = [] then 0 else 1)
                      + (if static_rules (rules so2) = [] then 0 else 1)))
     \<and> count_calls is_extraction w2 = count_calls is_extraction w + 2
     \<and> count_calls is_classification w2 = count_calls is_classification w + 4
     \<and> count_calls is_static_compilation w2 =
          count_calls is_static_compilation w + (if static_rules (rules so1) = [] then 0 else 1)
          + (if static_rules (rules so2) = [] then 0 else 1)
     \<and> count_calls is_dynamic_handle w2 =
          count_calls is_dynamic_handle w + (if dynamic_rules (rules so1) = [] then 0 else 1)
          + (if dynamic_rules (rules so2) = [] then 0 else 1)
     \<and> count_calls is_registration w2 =
          count_calls is_registration w + (if static_rules (rules so1) = [] then 0 else 1)
          + (if static_rules (rules so2) = [] then 0 else 1)"
proof -
  from mount_fresh_counts [OF assms(1), of w a] obtain w1 cA iA stA sepA kA where
    A: "mount (w, manageJss (Some so1) a) = Inr (w1, cA, iA)" "state iA = Some stA"
      "separatedStyles cA = [(kA, sepA)]"
      "kA = uuid_string (Suc (uuid_calls w)) @ uuid_string (uuid_calls w)"
      "componentMap cA = [(Component, uuid_string (Suc (uuid_calls w)))]"
      "styleMap cA = [(oid so1, uuid_string (uuid_calls w))]"
      "cached cA sepA"
      "identity sepA = objects_created w"
      "map_option sheet_id (staticStyleSheet stA) =
          (if static_rules (rules so1) = [] then None else Some (sheets_created w))"
      "map_option sheet_id (dynamicStyleSheet stA) =
          (if dynamic_rules (rules so1) = [] then None
           else Some (sheets_created w + (if static_rules (rules so1) = [] then 0 else 1)))"
    and nA: "sheets_created w1 =
          sheets_created w + (if static_rules (rules so1) = [] then 0 else 1)
          + (if dynamic_rules (rules so1) = [] then 0 else 1)"
      "objects_created w1 = Suc (objects_created w)"
      "uuid_calls w1 = Suc (Suc (uuid_calls w))"
    and cA: "count_calls is_extraction w1 = count_calls is_extraction w + 1"
      "count_calls is_classification w1 = count_calls is_classification w + 2"
      "count_calls is_static_compilation w1 =
          count_calls is_static_compilation w + (if static_rules (rules so1) = [] then 0 else 1)"
      "count_calls is_dynamic_handle w1 =
          count_calls is_dynamic_handle w + (if dynamic_rules (rules so1) = [] then 0 else 1)"
      "count_calls is_registration w1 =
          count_calls is_registration w + (if static_rules (rules so1) = [] then 0 else 1)"
    by (elim exE conjE)
  from mount_fresh_counts [OF assms(2), of w1 b] obtain w2 cB iB stB sepB kB where
    B: "mount (w1, manageJss (Some so2) b) = Inr (w2, cB, iB)" "state iB = Some stB"
      "separatedStyles cB = [(kB, sepB)]"
      "kB = uuid_string (Suc (uuid_calls w1)) @ uuid_string (uuid_calls w1)"
      "identity sepB = objects_created w1"
      "map_option sheet_id (staticStyleSheet stB) =
          (if static_rules (rules so2) = [] then None else Some (sheets_created w1))"
      "map_option sheet_id (dynamicStyleSheet stB) =
          (if dynamic_rules (rules so2) = [] then None
           else Some (sheets_created w1 + (if static_rules (rules so2) = [] then 0 else 1)))"
    and nB: "objects_created w2 = Suc (objects_created w1)"
      "uuid_calls w2 = Suc (Suc (uuid_calls w1))"
    and cB: "count_calls is_extraction w2 = count_calls is_extraction w1 + 1"
      "count_calls is_classification w2 = count_calls is_classification w1 + 2"
      "count_calls is_static_compilation w2 =
          count_calls is_static_compilation w1 + (if static_rules (rules so2) = [] then 0 else 1)"
      "count_calls is_dynamic_handle w2 =
          count_calls is_dynamic_handle w1 + (if dynamic_rules (rules so2) = [] then 0 else 1)"
      "count_calls is_registration w2 =
          count_calls is_registration w1 + (if static_rules (rules so2) = [] then 0 else 1)"
    by (elim exE conjE)
  have m: "mount_two (manageJss (Some so1) a) (manageJss (Some so2) b) w
             = Inr (w2, (cA, iA), (cB, iB))"
    by (simp add: mount_two_def A(1) B(1))
  show ?thesis
    apply (rule exI [of _ w2], rule exI [of _ cA], rule exI [of _ iA], rule exI [of _ cB],
        rule exI [of _ iB], rule exI [of _ stA], rule exI [of _ stB], rule exI [of _ kA],
        rule exI [of _ kB], rule exI [of _ sepA], rule exI [of _ sepB])
    using m A B nA nB cA cB by simp
qed

text \<open>C2 as stated fails: the cache is not per (component, style-set) pair. Wrapping
  \<open>component_A\<close> with the button styles twice and mounting one instance of each class
  runs two extractions (four classification calls) and two static compilations for the
  one pair.\<close>

theorem separatedStyles_cached_per_pair_counterexample:
  "calls_after is_extraction
     (mount_two (manageJss (Some button_styles) component_A)
                (manageJss (Some button_styles) component_A) initial_world) = Some 2
   \<and> calls_after is_classification
     (mount_two (manageJss (Some button_styles) component_A)
                (manageJss (Some button_styles) component_A) initial_world) = Some 4
   \<and> calls_after is_static_compilation
     (mount_two (manageJss (Some button_styles) component_A)
                (manageJss (Some button_styles) component_A) initial_world) = Some 2"
proof -
  from mount_two_fresh [OF button_styles_rules(3) button_styles_rules(3),
      of component_A component_A initial_world]
  obtain w2 x where
    "mount_two (manageJss (Some button_styles) component_A)
               (manageJss (Some button_styles) component_A) initial_world = Inr (w2, x)"
    "count_calls is_extraction w2 = count_calls is_extraction initial_world + 2"
    "count_calls is_classification w2 = count_calls is_classification initial_world + 4"
    "count_calls is_static_compilation w2 =
       count_calls is_static_compilation initial_world
       + (if static_rules (rules button_styles) = [] then 0 else 1)
       + (if static_rules (rules button_styles) = [] then 0 else 1)"
    by (elim exE conjE)
  then show ?thesis
    by (simp add: calls_after_Inr)
qed

lemma map_option_eq_SomeD:
  "map_option f x = Some n \<Longrightarrow> \<exists>y. x = Some y \<and> f y = n"
  by (cases x) auto

text \<open>
  C3, as amended. When two different base components are each wrapped with the same style
  object, which has static and dynamic rules, none of the top-level dynamic ones named
  \<open>hasOwnProperty\<close> (with such a rule \<open>ngAfterContentInit\<close> raises in \<open>getClassNames\<close>),
  mounting one instance of the first and then one instance of the second runs two static
  compilations and two extractions of the dynamic rule tree in total, one per class: every
  call of \<open>manageJss(styles)(BaseComponent)\<close> gives a class with a cache of its own. Two
  dynamic handles are created and two static handles are registered with the shared
  manager; the two dynamic handles differ, and so do the two static handles.
\<close>

theorem shared_styles_compiled_per_component:
  assumes "base_oid a \<noteq> base_oid b"
    and "static_rules (rules so) \<noteq> []" and "dynamic_rules (rules so) \<noteq> []"
    and "map_of (dynamic_rules (rules so)) ''hasOwnProperty'' = None"
  shows "\<exists>w2 cA iA cB iB stA stB sA sB dA dB.
       mount_two (manageJss (Some so) a) (manageJss (Some so) b) w
         = Inr (w2, (cA, iA), (cB, iB))
     \<and> count_calls is_static_compilation w2 = count_calls is_static_compilation w + 2
     \<and> count_calls is_extraction w2 = count_calls is_extraction w + 2
     \<and> count_calls is_dynamic_handle w2 = count_calls is_dynamic_handle w + 2
     \<and> count_calls is_registration w2 = count_calls is_registration w + 2
     \<and> state iA = Some stA \<and> state iB = Some stB
     \<and> dynamicStyleSheet stA = Some dA \<and> dynamicStyleSheet stB = Some dB
     \<and> sheet_id dA \<noteq> sheet_id dB
     \<and> staticStyleSheet stA = Some sA \<and> staticStyleSheet stB = Some sB
     \<and> sheet_id sA \<noteq> sheet_id sB"
proof -
  from mount_two_fresh [OF assms(4) assms(4), of a b w]
  obtain w2 cA iA cB iB stA stB where
    m: "mount_two (manageJss (Some so) a) (manageJss (Some so) b) w
         = Inr (w2, (cA, iA), (cB, iB))"
    and st: "state iA = Some stA" "state iB = Some stB"
    and ids0: "map_option sheet_id (staticStyleSheet stA) =
          (if static_rules (rules so) = [] then None else Some (sheets_created w))"
      "map_option sheet_id (dynamicStyleSheet stA) =
          (if dynamic_rules (rules so) = [] then None
           else Some (sheets_created w + (if static_rules (rules so) = [] then 0 else 1)))"
      "map_option sheet_id (staticStyleSheet stB) =
          (if static_rules (rules so) = [] then None
           else Some (sheets_created w + (if static_rules (rules so) = [] then 0 else 1)
                      + (if dynamic_rules (rules so) = [] then 0 else 1)))"
      "map_option sheet_id (dynamicStyleSheet stB) =
          (if dynamic_rules (rules so) = [] then None
           else Some (sheets_created w + (if static_rules (rules so) = [] then 0 else 1)
                      + (if dynamic_rules (rules so) = [] then 0 else 1)
                      + (if static_rules (rules so) = [] then 0 else 1)))"
    and c0: "count_calls is_extraction w2 = count_calls is_extraction w + 2"
      "count_calls is_static_compilation w2 =
          count_calls is_static_compilation w + (if static_rules (rules so) = [] then 0 else 1)
          + (if static_rules (rules so) = [] then 0 else 1)"
      "count_calls is_dynamic_handle w2 =
          count_calls is_dynamic_handle w + (if dynamic_rules (rules so) = [] then 0 else 1)
          + (if dynamic_rules (rules so) = [] then 0 else 1)"
      "count_calls is_registration w2 =
          count_calls is_registration w + (if static_rules (rules so) = [] then 0 else 1)
          + (if static_rules (rules so) = [] then 0 else 1)"
    by (elim exE conjE)
  note ids = ids0 [simplified assms(2,3) if_False]
  note c = c0 [simplified assms(2,3) if_False]
  from map_option_eq_SomeD [OF ids(1)] obtain sA where
    sA: "staticStyleSheet stA = Some sA" "sheet_id sA = sheets_created w" by blast
  from map_option_eq_SomeD [OF ids(2)] obtain dA where
    dA: "dynamicStyleSheet stA = Some dA" "sheet_id dA = sheets_created w + 1" by blast
  from map_option_eq_SomeD [OF ids(3)] obtain sB where
    sB: "staticStyleSheet stB = Some sB" "sheet_id sB = sheets_created w + 1 + 1" by blast
  from map_option_eq_SomeD [OF ids(4)] obtain dB where
    dB: "dynamicStyleSheet stB = Some dB" "sheet_id dB = sheets_created w + 1 + 1 + 1" by blast
  show ?thesis
    apply (rule exI [of _ w2], rule exI [of _ cA], rule exI [of _ iA], rule exI [of _ cB],
        rule exI [of _ iB], rule exI [of _ stA], rule exI [of _ stB], rule exI [of _ sA],
        rule exI [of _ sB], rule exI [of _ dA], rule exI [of _ dB])
    using m st c sA dA sB dB by simp
qed

theorem shared_styles_compiled_per_component_witness:
  "base_oid component_A \<noteq> base_oid component_B
   \<and> static_rules (rules button_styles) \<noteq> [] \<and> dynamic_rules (rules button_styles) \<noteq> []
   \<and> map_of (dynamic_rules (rules button_styles)) ''hasOwnProperty'' = None
   \<and> calls_after is_dynamic_handle
        (mount_two (manageJss (Some button_styles) component_A)
                   (manageJss (Some button_styles) component_B) initial_world) = Some 2
   \<and> calls_after is_registration
        (mount_two (manageJss (Some button_styles) component_A)
                   (manageJss (Some button_styles) component_B) initial_world) = Some 2"
proof -
  have d: "base_oid component_A \<noteq> base_oid component_B"
    by (simp add: component_A_def component_B_def)
  from shared_styles_compiled_per_component
    [OF d button_styles_rules, of initial_world]
  obtain w2 x where
    "mount_two (manageJss (Some button_styles) component_A)
               (manageJss (Some button_styles) component_B) initial_world = Inr (w2, x)"
    "count_calls is_dynamic_handle w2 = count_calls is_dynamic_handle initial_world + 2"
    "count_calls is_registration w2 = count_calls is_registration initial_world + 2"
    by (elim exE conjE)
  with d show ?thesis
    by (simp add: calls_after_Inr)
qed

text \<open>C3 as stated fails: with the button styles on two base components, mounting one
  instance of each runs two static compilations and two extractions, not one.\<close>

theorem shared_styles_compiled_once_counterexample:
  "calls_after is_static_compilation
     (mount_two (manageJss (Some button_styles) component_A)
                (manageJss (Some button_styles) component_B) initial_world) = Some 2
   \<and> calls_after is_extraction
     (mount_two (manageJss (Some button_styles) component_A)
                (manageJss (Some button_styles) component_B) initial_world) = Some 2"
proof -
  from mount_two_fresh [OF button_styles_rules(3) button_styles_rules(3),
      of component_A component_B initial_world]
  obtain w2 x where
    "mount_two (manageJss (Some button_styles) component_A)
               (manageJss (Some button_styles) component_B) initial_world = Inr (w2, x)"
    "count_calls is_extraction w2 = count_calls is_extraction initial_world + 2"
    "count_calls is_static_compilation w2 =
       count_calls is_static_compilation initial_world
       + (if static_rules (rules button_styles) = [] then 0 else 1)
       + (if static_rules (rules button_styles) = [] then 0 else 1)"
    by (elim exE conjE)
  then show ?thesis
    by (simp add: calls_after_Inr)
qed

subsection \<open>The key of the cache\<close>

lemma uuid_string_inject [simp]: "uuid_string m = uuid_string n \<longleftrightarrow> m = n"
  by (simp add: uuid_string_def)

lemma length_uuid_string [simp]: "length (uuid_string n) = Suc n"
  by (simp add: uuid_string_def)





subsection \<open>Configuration and destruction\<close>

text \<open>
  C6. For every instance whose \<open>ngOnInit\<close> has run (its state object exists and its two
  listeners are registered) and every sequence of configuration objects delivered as
  \<open>getConfig\<close> events: when the instance has a dynamic handle, the calls made are one
  \<open>update\<close> of that handle per delivery, with the delivered configuration and in the order
  of delivery, and nothing else; when it has none, no call is made at all. So no call on
  the static handle is made. The instance keeps the last configuration delivered.
\<close>

theorem configuration_updates_dynamic_handle_only:
  assumes "state i = Some st" and "listeners i = [GetConfig, Update]"
  shows "deliver_all cfgs (w, i) =
     Inr (w\<lparr>trace := trace w
              @ (case dynamicStyleSheet st of
                   Some d \<Rightarrow> map (UpdateSheet (sheet_id d)) cfgs
                 | None \<Rightarrow> [])\<rparr>,
          i\<lparr>config := (if cfgs = [] then config i else Some (last cfgs))\<rparr>)"
  using assms
proof (induction cfgs arbitrary: w i)
  case Nil
  then show ?case by (simp split: option.splits)
next
  case (Cons cfg cfgs)
  have st: "state (i\<lparr>config := Some cfg\<rparr>) = Some st"
    and ls: "listeners (i\<lparr>config := Some cfg\<rparr>) = [GetConfig, Update]"
    using Cons.prems by simp_all
  show ?case
    by (simp add: receive_getConfig_once [OF Cons.prems] Cons.IH [OF st ls] emit_def
        split: option.splits)
qed

text \<open>{color: "red"} and then {color: "blue"}, delivered to the mounted example.\<close>

theorem configuration_updates_dynamic_handle_only_witness:
  "deliver_all [[(''color'', ''red'')], [(''color'', ''blue'')]] (initial_world, mounted_example) =
     Inr (initial_world\<lparr>trace := [UpdateSheet 1 [(''color'', ''red'')],
                                   UpdateSheet 1 [(''color'', ''blue'')]]\<rparr>,
          mounted_example\<lparr>config := Some [(''color'', ''blue'')]\<rparr>)"
  using configuration_updates_dynamic_handle_only
    [of mounted_example _ "[[(''color'', ''red'')], [(''color'', ''blue'')]]" initial_world]
  by (simp add: mounted_example_def initial_world_def)

text \<open>
  C7, as amended. For every instance whose state object exists, that is, whose
  \<open>ngOnInit\<close> has run: \<open>ngOnDestroy\<close> returns; it unmanages the static handle when
  there is one, detaches and removes the dynamic handle when there is one, and dispatches
  \<open>deregisterComponent\<close>. With neither handle it makes no stylesheet call. An instance
  whose \<open>ngAfterContentInit\<close> has raised is such an instance.
\<close>

theorem ngOnDestroy_skips_absent_handles:
  assumes "state i = Some st"
  shows "ngOnDestroy (w, i) =
     Inr (w\<lparr>trace := trace w
              @ (case staticStyleSheet st of Some s \<Rightarrow> [ManagerUnmanage (sheet_id s)] | None \<Rightarrow> [])
              @ (case dynamicStyleSheet st of
                   Some d \<Rightarrow> [Detach (sheet_id d), RemoveStyleSheet (sheet_id d)]
                 | None \<Rightarrow> [])
              @ [DispatchEvent DeregisterComponent None]\<rparr>, i)
     \<and> (if staticStyleSheet st = None \<and> dynamicStyleSheet st = None
        then ngOnDestroy (w, i) = Inr (emit (DispatchEvent DeregisterComponent None) w, i)
        else True)"
  using ngOnDestroy_eq [OF assms, of w] by (simp add: emit_def)

text \<open>A class without styles: \<open>ngOnInit\<close> returns, \<open>ngAfterContentInit\<close> raises, and
  \<open>ngOnDestroy\<close> then only dispatches \<open>deregisterComponent\<close>.\<close>

theorem ngOnDestroy_skips_absent_handles_witness:
  "(case ngOnInit (manageJss None component_A) (initial_world, new_component) of
      Inl e \<Rightarrow> False
    | Inr (w, i) \<Rightarrow>
        ngAfterContentInit (w, manageJss None component_A, i) = Inl TypeError
        \<and> ngOnDestroy (w, i) = Inr (emit (DispatchEvent DeregisterComponent None) w, i))"
  using ngOnDestroy_skips_absent_handles
    [of "\<lparr>instanceId = None, className = Undefined,
           state = Some \<lparr>dynamicStyleSheet = None, staticStyleSheet = None\<rparr>,
           config = Some [], listeners = [GetConfig, Update]\<rparr>"
        "\<lparr>dynamicStyleSheet = None, staticStyleSheet = None\<rparr>"]
  by (simp add: ngOnInit_new ngAfterContentInit_no_styles emit_def)

text \<open>
  C9. For a class made by \<open>manageJss\<close> without a style object, \<open>ngAfterContentInit\<close>
  raises a TypeError on every instance and in every world (\<open>styleMap.set\<close> is called
  with the key \<open>undefined\<close>), and so does mounting an instance.
\<close>

theorem mount_without_styles_raises:
  "ngAfterContentInit (w, manageJss None b, i) = Inl TypeError
   \<and> mount (w, manageJss None b) = Inl TypeError"
  by (simp add: mount_def ngOnInit_new ngAfterContentInit_no_styles)

text \<open>With a style object, also an empty one, mounting returns, unless a top-level
  dynamic rule is named \<open>hasOwnProperty\<close>.\<close>

lemma mount_with_styles_returns:
  assumes "map_of (dynamic_rules (rules so)) ''hasOwnProperty'' = None"
  shows "\<exists>w' c' i'. mount (w, manageJss (Some so) b) = Inr (w', c', i')"
  using mount_fresh [OF assms, of w b] by blast

text \<open>
  C10. For every instance whose \<open>ngOnInit\<close> has run: \<open>ngOnDestroy\<close> returns the instance
  as it was, with both listeners still registered and the handles still in its state; a
  \<open>getConfig\<close> event that arrives afterwards sets the configuration of the instance and,
  when the instance has a dynamic handle, calls \<open>update\<close> on that handle, which
  \<open>ngOnDestroy\<close> has detached and removed.
\<close>

theorem listeners_survive_ngOnDestroy:
  assumes "state i = Some st" and "listeners i = [GetConfig, Update]"
  shows "\<exists>w1. ngOnDestroy (w, i) = Inr (w1, i)
     \<and> trace w1 = trace w
          @ (case staticStyleSheet st of Some s \<Rightarrow> [ManagerUnmanage (sheet_id s)] | None \<Rightarrow> [])
          @ (case dynamicStyleSheet st of
               Some d \<Rightarrow> [Detach (sheet_id d), RemoveStyleSheet (sheet_id d)]
             | None \<Rightarrow> [])
          @ [DispatchEvent DeregisterComponent None]
     \<and> receive GetConfig (Some cfg) (w1, i) =
          Inr (w1\<lparr>trace := trace w1
                   @ (case dynamicStyleSheet st of
                        Some d \<Rightarrow> [UpdateSheet (sheet_id d) cfg]
                      | None \<Rightarrow> [])\<rparr>,
               i\<lparr>config := Some cfg\<rparr>)"
  using ngOnDestroy_eq [OF assms(1), of w] receive_getConfig_once [OF assms, of "Some cfg"]
  by (simp add: emit_def split: option.splits)

theorem listeners_survive_ngOnDestroy_witness:
  "(case ngOnDestroy (initial_world, mounted_example) of
      Inl e \<Rightarrow> False
    | Inr (w1, i1) \<Rightarrow>
        listeners i1 = [GetConfig, Update]
        \<and> trace w1 = [ManagerUnmanage 0, Detach 1, RemoveStyleSheet 1,
                       DispatchEvent DeregisterComponent None]
        \<and> receive GetConfig (Some [(''color'', ''blue'')]) (w1, i1) =
            Inr (w1\<lparr>trace := trace w1 @ [UpdateSheet 1 [(''color'', ''blue'')]]\<rparr>,
                 i1\<lparr>config := Some [(''color'', ''blue'')]\<rparr>))"
proof -
  have s: "state mounted_example = Some
        \<lparr>dynamicStyleSheet = Some
           \<lparr>sheet_id = 1, sheet_styles = dynamic_rules (rules button_styles), link = True,
            classes = [(''button'', ''button-i'')]\<rparr>,
         staticStyleSheet = Some
           \<lparr>sheet_id = 0, sheet_styles = static_rules (rules button_styles), link = False,
            classes = [(''button'', ''button-'')]\<rparr>\<rparr>"
    and l: "listeners mounted_example = [GetConfig, Update]"
    by (simp_all add: mounted_example_def)
  from listeners_survive_ngOnDestroy [OF s l, of initial_world "[(''color'', ''blue'')]"]
  show ?thesis
    by (auto simp: l initial_world_def)
qed

lemma mount_button_example:
  "mount (initial_world, manageJss (Some button_styles) component_A) =
     Inr (initial_world
            \<lparr>uuid_calls := 2, sheets_created := 2, objects_created := 1,
             trace := [Super NgOnInit, AddEventListener GetConfig,
                       DispatchEvent RegisterComponent None, DispatchEvent GetConfig (Some []),
                       AddEventListener Update, UuidV1, UuidV1, GetDynamicStyles 7,
                       GetStaticStyles 7, CreateStyleSheet 0 False, CreateStyleSheet 1 True,
                       ManagerAdd 0 0, ManagerManage 0, Attach 1, UpdateSheet 1 []]\<rparr>,
          \<lparr>styles = Some button_styles, base = component_A,
           componentMap = [(Component, ''ui'')], styleMap = [(7, ''u'')],
           separatedStyles =
             [(''uiu'',
               \<lparr>identity = 0,
                staticStyles = Some (static_rules (rules button_styles)),
                sharedStyleSheet = Some
                  \<lparr>sheet_id = 0, sheet_styles = static_rules (rules button_styles),
                   link = False, classes = [(''button'', ''button-'')]\<rparr>,
                dynamicStyles = Some (dynamic_rules (rules button_styles))\<rparr>)]\<rparr>,
          mounted_example)"
  by (simp add: mount_def ngOnInit_new ngAfterContentInit_def separatedStylesInstance_def
      remember_def weakmap_get_def weakmap_set_def truthy_def uuid_def ngAfterViewInit_eq Let_def
      separateStyles_def createState_def createStyleSheet_def getDynamicStyles_def
      getStaticStyles_def isEmptyObject_def first_key_def template_def getClassNames_def
      object_assign_def merge_key_def hasOwnProperty_def put_property_def get_property_def
      to_string_def Object_prototype_def designSystem_def
      mounted_example_def button_styles_def component_A_def initial_world_def emit_def
      super_def uuid_string_def numeral_2_eq_2 manageJss_def split: prod.splits)

text \<open>C7 as stated fails for an instance whose \<open>ngOnInit\<close> has not run: its state is
  \<open>undefined\<close>, and \<open>ngOnDestroy\<close> raises a TypeError when it reads
  \<open>this.state.staticStyleSheet\<close>.\<close>

theorem ngOnDestroy_before_ngOnInit_counterexample:
  "ngOnDestroy (initial_world, new_component) = Inl TypeError"
  by (simp add: ngOnDestroy_def new_component_def)

subsection \<open>The order of creation and use\<close>

lemma created_before_use_cong:
  "set cr = set cr' \<Longrightarrow> created_before_use cr tr = created_before_use cr' tr"
  by (induction cr tr arbitrary: cr' rule: created_before_use.induct) auto

lemma created_ids_append [simp]: "created_ids (tr @ tr') = created_ids tr @ created_ids tr'"
  by (induction tr rule: created_ids.induct) auto

lemma created_before_use_append:
  "created_before_use cr (tr @ tr') =
     (created_before_use cr tr \<and> created_before_use (created_ids tr @ cr) tr')"
proof (induction cr tr rule: created_before_use.induct)
  case (2 created n lnk cs)
  have "created_before_use (created_ids cs @ n # created) tr'
          = created_before_use (n # created_ids cs @ created) tr'"
    by (rule created_before_use_cong) auto
  with 2 show ?case by simp
qed auto

lemma sheet_created_mono:
  "trace w' = trace w @ tr \<Longrightarrow> sheet_created w s \<Longrightarrow> sheet_created w' s"
  by (auto simp: sheet_created_def split: option.splits)

lemma cache_created_mono:
  "trace w' = trace w @ tr \<Longrightarrow> separatedStyles c' = separatedStyles c
   \<Longrightarrow> cache_created w c \<Longrightarrow> cache_created w' c'"
  by (auto simp: cache_created_def list_all_iff dest: sheet_created_mono)

lemma state_created_mono:
  "trace w' = trace w @ tr \<Longrightarrow> state i' = state i
   \<Longrightarrow> state_created w i \<Longrightarrow> state_created w' i'"
  by (auto simp: state_created_def split: option.splits dest: sheet_created_mono)

lemma neutral_created_before_use:
  "list_all neutral tr \<Longrightarrow> created_before_use cr tr"
  by (induction cr tr rule: created_before_use.induct) auto

lemma neutral_created_ids: "list_all neutral tr \<Longrightarrow> created_ids tr = []"
  by (induction tr rule: created_ids.induct) auto

lemma well_ordered_neutral:
  assumes "well_ordered (w, c, i)" and "trace w' = trace w @ tr" and "list_all neutral tr"
    and "separatedStyles c' = separatedStyles c" and "state i' = state i"
  shows "well_ordered (w', c', i')"
  using assms
  by (auto simp: well_ordered_def created_before_use_append neutral_created_before_use
      intro: cache_created_mono state_created_mono)

lemma onGetConfig_well_ordered:
  assumes "onGetConfig detail (w, i) = Inr (w', i')" and "well_ordered (w, c, i)"
  shows "well_ordered (w', c, i')"
proof -
  from assms(1) obtain tr where "trace w' = trace w @ tr" "list_all neutral tr" "state i' = state i"
    by (auto simp: onGetConfig_def sheet_update_def Let_def split: option.splits)
  with assms(2) show ?thesis
    by (auto intro: well_ordered_neutral)
qed

lemma repeatedly_preserves:
  assumes "\<And>s s'. P s \<Longrightarrow> f s = Inr s' \<Longrightarrow> P s'"
  shows "P s \<Longrightarrow> repeatedly n f s = Inr s' \<Longrightarrow> P s'"
proof (induction n arbitrary: s)
  case 0
  then show ?case by simp
next
  case (Suc n)
  then show ?case
    by (cases "f s") (auto dest: assms)
qed

lemma receive_getConfig_well_ordered:
  assumes "receive_getConfig detail (w, i) = Inr (w', i')" and "well_ordered (w, c, i)"
  shows "well_ordered (w', c, i')"
proof -
  have "(\<lambda>(w, i). well_ordered (w, c, i)) (w', i')"
  proof (rule repeatedly_preserves [where f = "onGetConfig detail" and s = "(w, i)"])
    show "(\<lambda>(w, i). well_ordered (w, c, i)) (w, i)" using assms(2) by simp
    show "repeatedly (registered GetConfig (snd (w, i))) (onGetConfig detail) (w, i) = Inr (w', i')"
      using assms(1) by (simp add: receive_getConfig_def)
  next
    fix s s' :: "world \<times> component"
    assume "(\<lambda>(w, i). well_ordered (w, c, i)) s" and "onGetConfig detail s = Inr s'"
    then show "(\<lambda>(w, i). well_ordered (w, c, i)) s'"
      by (cases s; cases s') (auto dest: onGetConfig_well_ordered)
  qed
  then show ?thesis by simp
qed

lemma onUpdate_well_ordered:
  assumes "onUpdate (w, i) = Inr (w', i')" and "well_ordered (w, c, i)"
  shows "well_ordered (w', c, i')"
proof -
  have "well_ordered (emit (DispatchEvent GetConfig (Some [])) w, c, i)"
    using assms(2)
    by (rule well_ordered_neutral [where tr = "[DispatchEvent GetConfig (Some [])]"]) simp_all
  with assms(1) show ?thesis
    by (auto simp: onUpdate_def dest: receive_getConfig_well_ordered)
qed

lemma receive_well_ordered:
  assumes "receive name detail (w, i) = Inr (w', i')" and "well_ordered (w, c, i)"
  shows "well_ordered (w', c, i')"
proof (cases name)
  case GetConfig
  with assms show ?thesis
    by (auto simp: receive_def dest: receive_getConfig_well_ordered)
next
  case Update
  have "(\<lambda>(w, i). well_ordered (w, c, i)) (w', i')"
  proof (rule repeatedly_preserves [where f = onUpdate and s = "(w, i)"])
    show "(\<lambda>(w, i). well_ordered (w, c, i)) (w, i)" using assms(2) by simp
    show "repeatedly (registered Update (snd (w, i))) onUpdate (w, i) = Inr (w', i')"
      using assms(1) Update by (simp add: receive_def)
  next
    fix s s' :: "world \<times> component"
    assume "(\<lambda>(w, i). well_ordered (w, c, i)) s" and "onUpdate s = Inr s'"
    then show "(\<lambda>(w, i). well_ordered (w, c, i)) s'"
      by (cases s; cases s') (auto dest: onUpdate_well_ordered)
  qed
  then show ?thesis by simp
next
  case RegisterComponent
  with assms show ?thesis by (simp add: receive_def)
next
  case DeregisterComponent
  with assms show ?thesis by (simp add: receive_def)
qed

lemma ngOnDestroy_well_ordered:
  assumes "ngOnDestroy (w, i) = Inr (w', i')" and "well_ordered (w, c, i)"
  shows "well_ordered (w', c, i')"
proof -
  from assms(1) obtain st where st: "state i = Some st"
    by (auto simp: ngOnDestroy_def split: option.splits)
  from assms(1) ngOnDestroy_eq [OF st, of w] have i: "i' = i"
    and t: "trace w' = trace w
              @ ((case staticStyleSheet st of Some s \<Rightarrow> [ManagerUnmanage (sheet_id s)] | None \<Rightarrow> [])
              @ (case dynamicStyleSheet st of
                   Some d \<Rightarrow> [Detach (sheet_id d), RemoveStyleSheet (sheet_id d)]
                 | None \<Rightarrow> [])
              @ [DispatchEvent DeregisterComponent None])"
    by auto
  show ?thesis
    using assms(2) t
    by (rule well_ordered_neutral) (simp_all add: i split: option.splits)
qed

lemma ngAfterViewInit_well_ordered:
  assumes "ngAfterViewInit c (w, i) = Inr (w', i')" and "well_ordered (w, c, i)"
  shows "well_ordered (w', c, i')"
proof -
  from assms(1) obtain st where st: "state i = Some st"
    by (auto simp: ngAfterViewInit_eq split: option.splits)
  from assms(1) st have i: "i' = i"
    and t: "trace w' = trace w
              @ ((if has_ngAfterViewInit (base c) then [Super NgAfterViewInit] else [])
              @ (case staticStyleSheet st of
                   Some s \<Rightarrow> [ManagerAdd (sheet_id s) (sheet_id s), ManagerManage (sheet_id s)]
                 | None \<Rightarrow> [])
              @ (case dynamicStyleSheet st of
                   Some d \<Rightarrow> [Attach (sheet_id d), UpdateSheet (sheet_id d) (designSystem i)]
                 | None \<Rightarrow> []))"
    by (auto simp: ngAfterViewInit_eq)
  from assms(2) st have u: "created_before_use (created_ids (trace w))
              ((if has_ngAfterViewInit (base c) then [Super NgAfterViewInit] else [])
              @ (case staticStyleSheet st of
                   Some s \<Rightarrow> [ManagerAdd (sheet_id s) (sheet_id s), ManagerManage (sheet_id s)]
                 | None \<Rightarrow> [])
              @ (case dynamicStyleSheet st of
                   Some d \<Rightarrow> [Attach (sheet_id d), UpdateSheet (sheet_id d) (designSystem i)]
                 | None \<Rightarrow> []))"
    by (auto simp: well_ordered_def state_created_def sheet_created_def split: option.splits)
  from assms(2) have "created_before_use [] (trace w')"
    using u by (simp add: t created_before_use_append well_ordered_def)
  moreover from assms(2) t have "cache_created w' c" "state_created w' i'"
    by (auto simp: well_ordered_def i intro: cache_created_mono state_created_mono)
  ultimately show ?thesis by (simp add: well_ordered_def)
qed

lemma remember_trace:
  assumes "remember m key w = Inr (m', w')"
  shows "\<exists>tr. trace w' = trace w @ tr \<and> list_all neutral tr"
  using assms
  by (auto simp: remember_def uuid_def and_then_def split: if_splits sum.splits)

lemma list_all_set_property:
  "P (k, v) \<Longrightarrow> list_all P ps \<Longrightarrow> list_all P (set_property k v ps)"
  by (induction ps) auto

lemma separateStyles_created:
  "sheet_created (snd (separateStyles so w)) (sharedStyleSheet (fst (separateStyles so w)))"
proof (cases "sharedStyleSheet (fst (separateStyles so w))")
  case None
  then show ?thesis by (simp add: sheet_created_def)
next
  case (Some s)
  with separateStyles_fields(4) [of so w]
  have "static_rules (rules so) \<noteq> []" and "sheet_id s = sheets_created w"
    by (auto split: if_splits)
  with Some show ?thesis
    by (simp add: sheet_created_def separateStyles_trace)
qed

lemma separateStyles_well_ordered:
  assumes "created_before_use [] (trace w)"
  shows "created_before_use [] (trace (snd (separateStyles so w)))"
  using assms by (simp add: separateStyles_trace created_before_use_append)

lemma separatedStylesInstance_well_ordered:
  assumes "separatedStylesInstance (w, c) = Inr ((k, separated), w', c')"
    and "created_before_use [] (trace w)" and "cache_created w c"
  shows "created_before_use [] (trace w') \<and> cache_created w' c'
         \<and> sheet_created w' (sharedStyleSheet separated)
         \<and> (\<exists>tr. trace w' = trace w @ tr)"
proof -
  from assms(1) obtain sm w1 where r1: "remember (styleMap c) (map_option oid (styles c)) w = Inr (sm, w1)"
    by (cases "remember (styleMap c) (map_option oid (styles c)) w")
       (auto simp: separatedStylesInstance_def)
  with assms(1) obtain cm w2 where r2: "remember (componentMap c) (Some Component) w1 = Inr (cm, w2)"
    by (cases "remember (componentMap c) (Some Component) w1")
       (auto simp: separatedStylesInstance_def)
  from remember_trace [OF r1] remember_trace [OF r2] obtain tr where
    t: "trace w2 = trace w @ tr" and n: "list_all neutral tr"
    by auto
  define c1 where "c1 = c\<lparr>styleMap := sm, componentMap := cm\<rparr>"
  define key where "key = template (weakmap_get cm (Some Component))
                          @ template (weakmap_get sm (map_option oid (styles c)))"
  have E: "separatedStylesInstance (w, c) =
      (case map_of (separatedStyles c) key of
         Some e \<Rightarrow> Inr ((key, e), w2, c1)
       | None \<Rightarrow>
           (case styles c of
              None \<Rightarrow> Inl TypeError
            | Some so \<Rightarrow>
                Inr ((key, fst (separateStyles so w2)), snd (separateStyles so w2),
                     c1\<lparr>separatedStyles :=
                          set_property key (fst (separateStyles so w2)) (separatedStyles c1)\<rparr>)))"
    by (simp add: separatedStylesInstance_def r1 r2 Let_def c1_def key_def
        split: prod.splits option.splits)
  have o2: "created_before_use [] (trace w2)"
    using assms(2) n by (simp add: t created_before_use_append neutral_created_before_use)
  have cc2: "cache_created w2 c1"
    using t _ assms(3) by (rule cache_created_mono) (simp add: c1_def)
  show ?thesis
  proof (cases "map_of (separatedStyles c) key")
    case (Some e)
    with assms(1) E have eq: "k = key" "e = separated" "w' = w2" "c' = c1"
      by simp_all
    from Some have "(key, separated) \<in> set (separatedStyles c1)"
      by (auto simp: eq c1_def dest: map_of_SomeD)
    with cc2 have "sheet_created w2 (sharedStyleSheet separated)"
      by (auto simp: cache_created_def list_all_iff)
    with o2 cc2 t show ?thesis by (auto simp: eq)
  next
    case None
    with assms(1) E obtain so where so: "styles c = Some so"
      by (cases "styles c") simp_all
    with assms(1) E None have eq: "k = key" "separated = fst (separateStyles so w2)"
        "w' = snd (separateStyles so w2)"
        "c' = c1\<lparr>separatedStyles := set_property key separated (separatedStyles c1)\<rparr>"
      by auto
    have t': "trace w' = trace w2 @ ([GetDynamicStyles (oid so), GetStaticStyles (oid so)]
        @ (if static_rules (rules so) = [] then [] else [CreateStyleSheet (sheets_created w2) False]))"
      by (simp add: eq separateStyles_trace)
    have sc: "sheet_created w' (sharedStyleSheet separated)"
      unfolding eq by (rule separateStyles_created)
    have "cache_created w' c1"
      using t' _ cc2 by (rule cache_created_mono) simp
    with sc have "cache_created w' c'"
      by (simp add: cache_created_def eq(4) list_all_set_property)
    moreover have "created_before_use [] (trace w')"
      unfolding eq using o2 by (rule separateStyles_well_ordered)
    moreover have "\<exists>tr. trace w' = trace w @ tr"
      by (simp add: t' t)
    ultimately show ?thesis using sc by simp
  qed
qed

lemma createState_well_ordered:
  assumes "created_before_use [] (trace w)" and "sheet_created w (sharedStyleSheet separated)"
  shows "created_before_use [] (trace (snd (createState separated w)))
         \<and> sheet_created (snd (createState separated w)) (staticStyleSheet (fst (createState separated w)))
         \<and> sheet_created (snd (createState separated w)) (dynamicStyleSheet (fst (createState separated w)))"
proof -
  have 1: "created_before_use [] (trace (snd (createState separated w)))"
    using assms(1) by (simp add: createState_trace created_before_use_append split: option.splits)
  have 2: "sheet_created (snd (createState separated w)) (staticStyleSheet (fst (createState separated w)))"
    using createState_trace assms(2) unfolding createState_fields
    by (rule sheet_created_mono)
  have 3: "sheet_created (snd (createState separated w)) (dynamicStyleSheet (fst (createState separated w)))"
  proof (cases "dynamicStyleSheet (fst (createState separated w))")
    case None
    then show ?thesis by (simp add: sheet_created_def)
  next
    case (Some d)
    with createState_fields(2) [of separated w]
    have "sheet_id d = sheets_created w" and "dynamicStyles separated \<noteq> None"
      by (auto split: option.splits)
    with Some show ?thesis
      by (auto simp: sheet_created_def createState_trace)
  qed
  from 1 2 3 show ?thesis by simp
qed

lemma ngAfterContentInit_well_ordered:
  assumes "ngAfterContentInit (w, c, i) = Inr (w', c', i')" and "well_ordered (w, c, i)"
  shows "well_ordered (w', c', i')"
proof -
  let ?w0 = "super (has_ngAfterContentInit (base c)) NgAfterContentInit w"
  have w0: "well_ordered (?w0, c, i)"
    using assms(2)
    by (rule well_ordered_neutral [where tr = "if has_ngAfterContentInit (base c)
                                              then [Super NgAfterContentInit] else []"]) simp_all
  from assms(1) obtain k separated w1 c1 where
    s: "separatedStylesInstance (?w0, c) = Inr ((k, separated), w1, c1)"
    by (cases "separatedStylesInstance (?w0, c)") (auto simp: ngAfterContentInit_def)
  from separatedStylesInstance_well_ordered [OF s] w0
  have o1: "created_before_use [] (trace w1)" and cc1: "cache_created w1 c1"
    and sc1: "sheet_created w1 (sharedStyleSheet separated)"
    by (auto simp: well_ordered_def)
  from assms(1) s have eq: "w' = snd (createState separated w1)" "c' = c1"
    "state i' = Some (fst (createState separated w1))"
    by (auto simp: ngAfterContentInit_def first_key_def and_then_def
        split: prod.splits sum.splits option.splits)
  from createState_well_ordered [OF o1 sc1] have
    "created_before_use [] (trace w')" "state_created w' i'"
    by (simp_all add: eq state_created_def)
  moreover have "cache_created w' c'"
    unfolding eq using createState_trace _ cc1 by (rule cache_created_mono) simp
  ultimately show ?thesis by (simp add: well_ordered_def)
qed

lemma step_well_ordered:
  assumes "step a s = Inr s'" and "well_ordered s"
  shows "well_ordered s'"
proof -
  obtain w c i where s: "s = (w, c, i)" by (cases s)
  obtain w' c' i' where s': "s' = (w', c', i')" by (cases s')
  show ?thesis
  proof (cases a)
    case ContentInit
    with assms show ?thesis
      by (auto simp: s s' dest: ngAfterContentInit_well_ordered)
  next
    case ViewInit
    with assms show ?thesis
      by (auto simp: s s' and_then_def split: sum.splits dest: ngAfterViewInit_well_ordered)
  next
    case (Configure detail)
    with assms show ?thesis
      by (auto simp: s s' and_then_def split: sum.splits dest: receive_well_ordered)
  next
    case Refresh
    with assms show ?thesis
      by (auto simp: s s' and_then_def split: sum.splits dest: receive_well_ordered)
  next
    case Destroy
    with assms show ?thesis
      by (auto simp: s s' and_then_def split: sum.splits dest: ngOnDestroy_well_ordered)
  qed
qed

lemma run_well_ordered:
  "run acts s = Inr s' \<Longrightarrow> well_ordered s \<Longrightarrow> well_ordered s'"
proof (induction acts arbitrary: s)
  case Nil
  then show ?case by simp
next
  case (Cons a acts)
  then show ?case
    by (cases "step a s") (auto dest: step_well_ordered)
qed

lemma ngOnInit_well_ordered:
  assumes "created_before_use [] (trace w0)" and "cache_created w0 c"
  shows "\<exists>w i. ngOnInit c (w0, new_component) = Inr (w, i) \<and> well_ordered (w, c, i)"
proof -
  let ?tr = "(if has_ngOnInit (base c) then [Super NgOnInit] else [])
              @ [AddEventListener GetConfig, DispatchEvent RegisterComponent None,
                 DispatchEvent GetConfig (Some []), AddEventListener Update]"
  let ?i = "\<lparr>instanceId = None, className = Undefined,
           state = Some \<lparr>dynamicStyleSheet = None, staticStyleSheet = None\<rparr>,
           config = Some [], listeners = [GetConfig, Update]\<rparr>"
  have "well_ordered (w0, c, ?i)"
    using assms by (simp add: well_ordered_def state_created_def sheet_created_def)
  then have "well_ordered (w0\<lparr>trace := trace w0 @ ?tr\<rparr>, c, ?i)"
    by (rule well_ordered_neutral [where tr = ?tr]) simp_all
  then show ?thesis
    by (simp add: ngOnInit_new)
qed

lemma lifecycle_example:
  "calls_of (lifecycle (manageJss (Some button_styles) component_A)
       [ContentInit, Configure (Some [(''color'', ''red'')]), ViewInit] initial_world) =
     Some [Super NgOnInit, AddEventListener GetConfig, DispatchEvent RegisterComponent None,
           DispatchEvent GetConfig (Some []), AddEventListener Update, UuidV1, UuidV1,
           GetDynamicStyles 7, GetStaticStyles 7, CreateStyleSheet 0 False,
           CreateStyleSheet 1 True, UpdateSheet 1 [(''color'', ''red'')],
           ManagerAdd 0 0, ManagerManage 0, Attach 1, UpdateSheet 1 [(''color'', ''red'')]]"
  by (simp add: calls_of_def lifecycle_def ngOnInit_new ngAfterContentInit_def
      separatedStylesInstance_def remember_def weakmap_get_def weakmap_set_def truthy_def
      uuid_def ngAfterViewInit_eq Let_def separateStyles_def createState_def
      createStyleSheet_def getDynamicStyles_def getStaticStyles_def isEmptyObject_def
      first_key_def template_def getClassNames_def object_assign_def merge_key_def
      hasOwnProperty_def designSystem_def receive_def receive_getConfig_def registered_def
      onGetConfig_def sheet_update_def button_styles_def component_A_def initial_world_def
      emit_def super_def uuid_string_def manageJss_def split: prod.splits)

text \<open>
  C8, as amended. Take a world in whose record every handle is created before it is
  used, a class whose cache holds only handles created in that record, and a new instance
  of the class. After \<open>ngOnInit\<close> and any sequence of later hooks and events that
  returns, in any order, every handle that has been registered with the shared manager,
  managed or attached has been created earlier in the record. Within
  \<open>ngAfterViewInit\<close> the dynamic handle is attached and then updated, in this order.
\<close>

theorem handles_created_before_attached:
  assumes "created_before_use [] (trace w0)" and "cache_created w0 c"
    and "lifecycle c acts w0 = Inr (w', c', i')"
  shows "created_before_use [] (trace w')
     \<and> ngAfterViewInit c2 (w2, i2) =
         (case state i2 of
            None \<Rightarrow> Inl TypeError
          | Some st \<Rightarrow>
              Inr (w2\<lparr>trace := trace w2
                     @ (if has_ngAfterViewInit (base c2) then [Super NgAfterViewInit] else [])
                     @ (case staticStyleSheet st of
                          Some s \<Rightarrow> [ManagerAdd (sheet_id s) (sheet_id s), ManagerManage (sheet_id s)]
                        | None \<Rightarrow> [])
                     @ (case dynamicStyleSheet st of
                          Some d \<Rightarrow> [Attach (sheet_id d), UpdateSheet (sheet_id d) (designSystem i2)]
                        | None \<Rightarrow> [])\<rparr>, i2))"
proof -
  from ngOnInit_well_ordered [OF assms(1,2)] obtain w i where
    init: "ngOnInit c (w0, new_component) = Inr (w, i)" and o: "well_ordered (w, c, i)"
    by blast
  from assms(3) init have "run acts (w, c, i) = Inr (w', c', i')"
    by (simp add: lifecycle_def)
  from run_well_ordered [OF this o] have "created_before_use [] (trace w')"
    by (simp add: well_ordered_def)
  then show ?thesis
    by (simp add: ngAfterViewInit_eq)
qed

theorem handles_created_before_attached_witness:
  "created_before_use [] (trace initial_world)
   \<and> cache_created initial_world (manageJss (Some button_styles) component_A)
   \<and> (case lifecycle (manageJss (Some button_styles) component_A)
             [ContentInit, Configure (Some [(''color'', ''red'')]), ViewInit] initial_world of
        Inl e \<Rightarrow> False
      | Inr (w', c', i') \<Rightarrow> created_before_use [] (trace w'))"
proof -
  have a: "created_before_use [] (trace initial_world)"
    by (simp add: initial_world_def)
  have b: "cache_created initial_world (manageJss (Some button_styles) component_A)"
    by (simp add: cache_created_def manageJss_def)
  obtain w' c' i' where r: "lifecycle (manageJss (Some button_styles) component_A)
             [ContentInit, Configure (Some [(''color'', ''red'')]), ViewInit] initial_world
           = Inr (w', c', i')"
    using lifecycle_example
    by (cases "lifecycle (manageJss (Some button_styles) component_A)
             [ContentInit, Configure (Some [(''color'', ''red'')]), ViewInit] initial_world")
       (auto simp: calls_of_def)
  from handles_created_before_attached [OF a b r] have "created_before_use [] (trace w')"
    by simp
  with a b r show ?thesis by simp
qed

text \<open>C8 as stated fails: a configuration delivered between \<open>ngAfterContentInit\<close> and
  \<open>ngAfterViewInit\<close> updates handle 1 before handle 1 is attached.\<close>

theorem update_before_attach_counterexample:
  "calls_of (lifecycle (manageJss (Some button_styles) component_A)
       [ContentInit, Configure (Some [(''color'', ''red'')]), ViewInit] initial_world) =
     Some [Super NgOnInit, AddEventListener GetConfig, DispatchEvent RegisterComponent None,
           DispatchEvent GetConfig (Some []), AddEventListener Update, UuidV1, UuidV1,
           GetDynamicStyles 7, GetStaticStyles 7, CreateStyleSheet 0 False,
           CreateStyleSheet 1 True, UpdateSheet 1 [(''color'', ''red'')],
           ManagerAdd 0 0, ManagerManage 0, Attach 1, UpdateSheet 1 [(''color'', ''red'')]]
   \<and> \<not> attached_before_update []
         [Super NgOnInit, AddEventListener GetConfig, DispatchEvent RegisterComponent None,
          DispatchEvent GetConfig (Some []), AddEventListener Update, UuidV1, UuidV1,
          GetDynamicStyles 7, GetStaticStyles 7, CreateStyleSheet 0 False,
          CreateStyleSheet 1 True, UpdateSheet 1 [(''color'', ''red'')],
          ManagerAdd 0 0, ManagerManage 0, Attach 1, UpdateSheet 1 [(''color'', ''red'')]]"
  using lifecycle_example by simp

end
